theory Spec2Isabelle
  imports Main "HOL-Library.Sublist" "HOL-Library.List_Lexorder" "HOL-Library.Char_ord"
begin

section \<open>Python strings, lists and sets\<close>

text \<open>
  A Python \<open>str\<close> is modelled as a \<open>string\<close>; a \<open>char\<close> stands for a code point below
  256. Strings are ordered as Python orders them: lexicographically by code point, a
  proper prefix first (\<open>List_Lexorder\<close> over \<open>Char_ord\<close>).
\<close>

definition isspace :: "char \<Rightarrow> bool" where
  \<comment> \<open>the code points below 256 that \<open>str.strip()\<close> removes: tab, LF, VT, FF, CR,
      FS, GS, RS, US, space, NEL and the no-break space\<close>
  "isspace c = (c \<in> set [CHR 0x09, CHR 0x0A, CHR 0x0B, CHR 0x0C, CHR 0x0D,
                          CHR 0x1C, CHR 0x1D, CHR 0x1E, CHR 0x1F, CHR 0x20,
                          CHR 0x85, CHR 0xA0])"

definition strip :: "string \<Rightarrow> string" where
  \<comment> \<open>\<open>s.strip()\<close>\<close>
  "strip s = rev (dropWhile isspace (rev (dropWhile isspace s)))"

definition before_hash :: "string \<Rightarrow> string" where
  \<comment> \<open>\<open>s.split("#", 1)[0]\<close>: the text before the first \<open>#\<close>, all of it when there is none\<close>
  "before_hash s = takeWhile (\<lambda>c. c \<noteq> CHR ''#'') s"

fun join :: "string \<Rightarrow> string list \<Rightarrow> string" where
  \<comment> \<open>\<open>sep.join(xs)\<close>\<close>
  "join sep [] = []"
| "join sep [x] = x"
| "join sep (x # y # ys) = x @ sep @ join sep (y # ys)"

definition del_at :: "nat \<Rightarrow> 'a list \<Rightarrow> 'a list" where
  \<comment> \<open>\<open>del xs[i]\<close> for an index inside the list (the only indices the code deletes at)\<close>
  "del_at i xs = take i xs @ drop (Suc i) xs"

text \<open>
  A Python \<open>set\<close> of strings is modelled as the list of its elements in the order in
  which the set iterates, so a well-formed set is a \<open>distinct\<close> list. Membership is
  \<open>x \<in> set cs\<close>, \<open>cs.remove(x)\<close> is \<open>remove1 x cs\<close> (the others keep their order),
  \<open>sorted(cs)\<close> is \<open>sort cs\<close>, and the empty set is \<open>[]\<close>.
\<close>

section \<open>UpdateLinguasAddon.update\_linguas\<close>

text \<open>
  The \<open>for i, line in enumerate(lines)\<close> loop. The arguments are the index \<open>i\<close>, the lines
  still to visit, the whole document, the codes not yet found and the indices marked
  for removal; the result is \<open>(changed, lines, codes, remove)\<close> at the end of the loop.
  The loop writes to the document only immediately before its \<open>break\<close>.
\<close>

fun update_linguas_loop ::
  "nat \<Rightarrow> string list \<Rightarrow> string list \<Rightarrow> string list \<Rightarrow> nat list
     \<Rightarrow> bool \<times> string list \<times> string list \<times> nat list" where
  "update_linguas_loop i [] lines codes remove = (False, lines, codes, remove)"
| "update_linguas_loop i (line # rest) lines codes remove =
     (let stripped = strip (before_hash line) in
      if stripped = [] then update_linguas_loop (Suc i) rest lines codes remove
      else if CHR '' '' \<in> set stripped then
        (let expected = join '' '' (sort codes) in
         if stripped \<noteq> expected
         then (True, lines[i := expected @ ''\<newline>''], [], remove)
         else (False, lines, [], remove))
      else if stripped \<in> set codes
        then update_linguas_loop (Suc i) rest lines (remove1 stripped codes) remove
      else update_linguas_loop (Suc i) rest lines codes (remove @ [i]))"

definition update_linguas :: "string list \<Rightarrow> string list \<Rightarrow> bool \<times> string list" where
  "update_linguas lines codes =
     (case update_linguas_loop 0 lines lines codes [] of
        (changed0, lines0, codes0, remove) \<Rightarrow>
          let (changed1, lines1) =
                (if remove \<noteq> [] then (True, fold del_at (rev remove) lines0)
                 else (changed0, lines0));
              (changed2, lines2) =
                (if codes0 \<noteq> [] then (True, lines1 @ map (\<lambda>code. code @ ''\<newline>'') codes0)
                 else (changed1, lines1))
          in (changed2, lines2))"

section \<open>Files, alerts and effects\<close>

text \<open>
  A text file is the list of lines that iterating over it (or \<open>readlines()\<close>) yields, and
  \<open>writelines\<close> stores such a list; the working tree maps a path to the file there.
  The translation of line endings that text mode performs on reading and writing is not
  modelled: a file written back with the lines that were read counts as unchanged.
  Exceptions are values; \<open>OSError\<close> stands for the class and its subclasses (a missing
  file among them), and the string is \<open>str(ex)\<close>. An \<open>UpdateError\<close> carries \<open>error.cmd\<close>,
  \<open>str(error.output)\<close> and \<open>str(error)\<close>.
\<close>

datatype exn =
    OSError string
  | ValueError string
  | UpdateError string string string
  | OtherException string

record alert =
  alert_addon :: string
  alert_command :: string
  alert_output :: "string option"
  alert_error :: string

datatype event =
    LogInfo string
  | TriggerAlerts "alert list"
  | WriteFile string
  | ResolveSymlinks string
  | CreateTemp string string
  | ExecuteProcess "string list"
  | Replace string string
  | CommitAndPush "string list" bool
  | UpdateBilingual string string "string list"

text \<open>
  The state a run works on: the working tree, the add-on's \<open>self.alerts\<close>, and the calls
  made to the collaborators outside this module, in order. \<open>TriggerAlerts\<close> records the
  alert list handed over by \<open>self.trigger_alerts(component)\<close>; every run below ends right
  after that call, so what the call does to the list afterwards is left out.
\<close>

record state =
  files :: "string \<rightharpoonup> string list"
  alerts :: "alert list"
  events :: "event list"

definition emit :: "event \<Rightarrow> state \<Rightarrow> state" where
  "emit e st = st\<lparr>events := events st @ [e]\<rparr>"

definition log_info :: "string \<Rightarrow> state \<Rightarrow> state" where
  "log_info msg st = emit (LogInfo msg) st"

definition append_alert :: "alert \<Rightarrow> state \<Rightarrow> state" where
  "append_alert a st = st\<lparr>alerts := alerts st @ [a]\<rparr>"

definition trigger_alerts :: "state \<Rightarrow> state" where
  "trigger_alerts st = emit (TriggerAlerts (alerts st)) st"

definition path_exists :: "state \<Rightarrow> string \<Rightarrow> bool" where
  \<comment> \<open>\<open>os.path.exists(path)\<close>\<close>
  "path_exists st path = (files st path \<noteq> None)"

fun truthy :: "string option \<Rightarrow> bool" where
  \<comment> \<open>the truth value of a \<open>str | None\<close>\<close>
  "truthy None = False"
| "truthy (Some s) = (s \<noteq> [])"

definition rstrip_chars :: "string \<Rightarrow> string \<Rightarrow> string" where
  \<comment> \<open>\<open>s.rstrip(chars)\<close>\<close>
  "rstrip_chars chars s = rev (dropWhile (\<lambda>c. c \<in> set chars) (rev s))"

definition dirname :: "string \<Rightarrow> string" where
  \<comment> \<open>\<open>os.path.dirname\<close> (POSIX)\<close>
  "dirname p =
     (let head = rev (dropWhile (\<lambda>c. c \<noteq> CHR ''/'') (rev p)) in
      if head \<noteq> [] \<and> \<not> list_all (\<lambda>c. c = CHR ''/'') head
      then rstrip_chars ''/'' head else head)"

definition path_join :: "string \<Rightarrow> string \<Rightarrow> string" where
  \<comment> \<open>\<open>os.path.join(a, b)\<close> (POSIX)\<close>
  "path_join a b =
     (if prefix ''/'' b then b
      else if a = [] \<or> suffix ''/'' a then a @ b
      else a @ ''/'' @ b)"

section \<open>UpdateConfigureAddon.sync\_linguas\<close>

definition all_linguas_prefix :: string where
  \<comment> \<open>the text \<open>ALL_LINGUAS="\<close>\<close>
  "all_linguas_prefix = ''ALL_LINGUAS='' @ [CHR 0x22]"

definition expected_line :: "string list \<Rightarrow> string" where
  \<comment> \<open>\<open>f'ALL_LINGUAS="{codes}"\n'\<close> with \<open>codes\<close> the language codes joined by spaces, in the
      order in which the query (ordered by code) delivers them\<close>
  "expected_line language_codes =
     all_linguas_prefix @ join '' '' language_codes @ [CHR 0x22] @ ''\<newline>''"

text \<open>
  The inner \<open>for i, line in enumerate(lines)\<close> loop: index, lines still to visit, the
  expected line, the document and the flag \<open>added\<close>; it returns the document and the flag.
\<close>

fun configure_loop ::
  "nat \<Rightarrow> string list \<Rightarrow> string \<Rightarrow> string list \<Rightarrow> bool \<Rightarrow> string list \<times> bool" where
  "configure_loop i [] expected lines added = (lines, added)"
| "configure_loop i (line # rest) expected lines added =
     (let stripped = strip line in
      if prefix ''#'' stripped then configure_loop (Suc i) rest expected lines added
      else if \<not> prefix all_linguas_prefix stripped
        then configure_loop (Suc i) rest expected lines added
      else if line \<noteq> expected
        then configure_loop (Suc i) rest expected (lines[i := expected]) True
      else configure_loop (Suc i) rest expected lines added)"

text \<open>The outer \<open>for path in paths\<close> loop; \<open>added\<close> is set once, before the loop.\<close>

fun configure_paths_loop ::
  "string list \<Rightarrow> string \<Rightarrow> bool \<Rightarrow> state \<Rightarrow> exn + (bool \<times> state)" where
  "configure_paths_loop [] expected added st = Inr (added, st)"
| "configure_paths_loop (path # paths) expected added st =
     (case files st path of
        None \<Rightarrow> Inl (OSError path)
      | Some lines \<Rightarrow>
          (case configure_loop 0 lines expected lines added of
             (lines', added') \<Rightarrow>
               configure_paths_loop paths expected added'
                 (if added'
                  then emit (WriteFile path) (st\<lparr>files := (files st)(path \<mapsto> lines')\<rparr>)
                  else st)))"

definition configure_sync_linguas ::
  "string list \<Rightarrow> string list \<Rightarrow> state \<Rightarrow> exn + (bool \<times> state)" where
  "configure_sync_linguas language_codes paths st =
     configure_paths_loop paths (expected_line language_codes) False st"

section \<open>GettextCustomizeAddon: the arguments for msgmerge and xgettext\<close>

text \<open>
  The configuration \<open>config\<close> is a dictionary; \<open>py_int\<close> is Python's \<open>int()\<close> on its values, which
  raises on a value it cannot convert. The component is not looked at.
\<close>

definition customize_get_msgmerge_args ::
  "('v \<Rightarrow> exn + int) \<Rightarrow> (string \<rightharpoonup> 'v) \<Rightarrow> 'c \<Rightarrow> exn + string list" where
  "customize_get_msgmerge_args py_int config component =
     (case (case config ''width'' of None \<Rightarrow> Inr 77 | Some v \<Rightarrow> py_int v) of
        Inl e \<Rightarrow> Inl e
      | Inr width \<Rightarrow> if width \<noteq> 77 then Inr [''--no-wrap''] else Inr [])"

definition customize_get_xgettext_args ::
  "('v \<Rightarrow> exn + int) \<Rightarrow> (string \<rightharpoonup> 'v) \<Rightarrow> 'c \<Rightarrow> exn + string list" where
  "customize_get_xgettext_args py_int config component =
     customize_get_msgmerge_args py_int config component"

section \<open>XGettextAddon: comparing two templates\<close>

definition pot_creation_date_start :: string where
  \<comment> \<open>the text \<open>"POT-Creation-Date: \<close>, opening quote included\<close>
  "pot_creation_date_start = [CHR 0x22] @ ''POT-Creation-Date: ''"

definition pot_creation_date_end :: string where
  \<comment> \<open>a backslash, the letter n, a double quote and a newline\<close>
  "pot_creation_date_end = [CHR 0x5C, CHR ''n'', CHR 0x22, CHR 0x0A]"

fun is_pot_creation_date :: "string option \<Rightarrow> bool" where
  "is_pot_creation_date None = False"
| "is_pot_creation_date (Some line) =
     (prefix pot_creation_date_start line \<and> suffix pot_creation_date_end line)"

fun zip_longest :: "'a list \<Rightarrow> 'b list \<Rightarrow> ('a option \<times> 'b option) list" where
  \<comment> \<open>\<open>itertools.zip_longest\<close> with the fill value \<open>None\<close>\<close>
  "zip_longest [] [] = []"
| "zip_longest (x # xs) [] = (Some x, None) # zip_longest xs []"
| "zip_longest [] (y # ys) = (None, Some y) # zip_longest [] ys"
| "zip_longest (x # xs) (y # ys) = (Some x, Some y) # zip_longest xs ys"

fun pot_files_same_loop :: "(string option \<times> string option) list \<Rightarrow> bool" where
  "pot_files_same_loop [] = True"
| "pot_files_same_loop ((line_a, line_b) # rest) =
     (if line_a \<noteq> line_b then
        (if \<not> is_pot_creation_date line_a then False
         else if \<not> is_pot_creation_date line_b then False
         else pot_files_same_loop rest)
      else pot_files_same_loop rest)"

definition pot_files_same :: "string list \<Rightarrow> string list \<Rightarrow> bool" where
  "pot_files_same file_a file_b = pot_files_same_loop (zip_longest file_a file_b)"

section \<open>The change gate\<close>

text \<open>
  What both orchestrators read from the component: the revision the repository was at
  before the update (\<open>previous_head\<close>), whether an alert of the add-on's kind is stored
  (\<open>component.alert_set.filter(name=self.alert).exists()\<close>), the files changed since
  \<open>previous_head\<close> (\<open>repository.list_changed_files\<close>), \<open>component.new_base\<close> and
  \<open>component.get_new_base_filename()\<close>.
\<close>

record component_env =
  previous_head :: "string option"
  alert_exists :: bool
  changed_files :: "string list"
  component_new_base :: string
  new_base_filename :: "string option"

definition xgettext_skips :: "'a component_env_scheme \<Rightarrow> string list \<Rightarrow> bool" where
  \<comment> \<open>the two nested conditions under which \<open>post_update\<close> logs "input files not updated"
      and returns\<close>
  "xgettext_skips env repo_files =
     (truthy (previous_head env) \<and> \<not> alert_exists env
      \<and> set (changed_files env) \<inter> set repo_files = {})"

definition msgmerge_skips :: "'a component_env_scheme \<Rightarrow> bool" where
  \<comment> \<open>the two nested conditions under which \<open>update_translations\<close> logs "new base was not
      updated" and returns\<close>
  "msgmerge_skips env =
     (truthy (previous_head env) \<and> \<not> alert_exists env
      \<and> component_new_base env \<notin> set (changed_files env))"

section \<open>XGettextAddon.post\_update\<close>

text \<open>
  Beside the component: \<open>output_path\<close> is \<open>output\<close>, that is \<open>self.get_new_base_filename()\<close>, \<open>self_new_base\<close> is
  \<open>self.new_base\<close>, \<open>configuration\<close> holds the add-on's string settings, \<open>cleanup_path\<close>
  and \<open>resolve_symlinks\<close> are the helpers of those names (the latter returns the
  exception it raises, if any), \<open>xgettext_args\<close> is the list \<open>self.get_xgettext_args\<close>
  returns, \<open>named_temporary_file\<close> gives the path of the file that
  \<open>NamedTemporaryFile(dir=...)\<close> creates in a directory, and \<open>execute_process\<close> gives, for
  a command line, the alerts the call appends to \<open>self.alerts\<close> and the lines found at
  the \<open>-o\<close> path afterwards.
\<close>

record xgettext_env = component_env +
  output_path :: string
  self_new_base :: string
  configuration :: "string \<rightharpoonup> string"
  skip_push :: bool
  cleanup_path :: "string \<Rightarrow> string"
  resolve_symlinks :: "string \<Rightarrow> exn option"
  xgettext_args :: "string list"
  named_temporary_file :: "string \<Rightarrow> string"
  execute_process :: "string list \<Rightarrow> alert list \<times> string list"

definition xgettext_name :: string where
  "xgettext_name = ''weblate.gettext.xgettext''"

definition get_directory :: "xgettext_env \<Rightarrow> string" where
  "get_directory env =
     (let path = (case configuration env ''directory'' of None \<Rightarrow> [] | Some p \<Rightarrow> p)
      in if path = ''.'' then [] else path)"

definition get_files_from :: "xgettext_env \<Rightarrow> string option" where
  "get_files_from env =
     (case new_base_filename env of
        None \<Rightarrow> None
      | Some base \<Rightarrow>
          Some (path_join (dirname base)
                  (case configuration env ''files_from'' of
                     None \<Rightarrow> ''POTFILES.in'' | Some filename \<Rightarrow> filename)))"

definition load_file_list :: "string list \<Rightarrow> string list" where
  "load_file_list f =
     map (\<lambda>line. rstrip_chars [CHR '' '', CHR 0x09, CHR 0x0D] (rstrip_chars ''\<newline>'' line))
       (filter (\<lambda>line. line \<noteq> [] \<and> \<not> prefix ''#'' line) f)"

definition xgettext_alert :: "xgettext_env \<Rightarrow> string \<Rightarrow> alert" where
  "xgettext_alert env err =
     \<lparr>alert_addon = xgettext_name, alert_command = ''xgettext'',
      alert_output = Some (output_path env), alert_error = err\<rparr>"

definition manifest_missing :: "xgettext_env \<Rightarrow> state \<Rightarrow> state" where
  "manifest_missing env st =
     log_info ''%s addon skipped, input file list not found''
       (trigger_alerts
          (append_alert (xgettext_alert env ''Input list (POTFILES.in) file not found'') st))"

definition manifest_invalid :: "xgettext_env \<Rightarrow> string \<Rightarrow> state \<Rightarrow> state" where
  "manifest_invalid env ex st =
     log_info ''%s addon skipped, input file list is invalid: %s''
       (trigger_alerts (append_alert (xgettext_alert env ex) st))"

text \<open>
  \<open>repo_files\<close> is a set, kept as the list of its elements in the order of their first
  occurrence in the manifest, and visited in that order. The loop stops at the first
  path whose resolution raises.
\<close>

fun resolve_loop ::
  "(string \<Rightarrow> exn option) \<Rightarrow> string list \<Rightarrow> state \<Rightarrow> exn option \<times> state" where
  "resolve_loop resolve [] st = (None, st)"
| "resolve_loop resolve (repo_path # rest) st =
     (case resolve repo_path of
        None \<Rightarrow> resolve_loop resolve rest (emit (ResolveSymlinks repo_path) st)
      | Some ex \<Rightarrow> (Some ex, emit (ResolveSymlinks repo_path) st))"

definition close_temp :: "string \<Rightarrow> state \<Rightarrow> state" where
  \<comment> \<open>leaving the \<open>with\<close> block: the temporary file is deleted if it is still there\<close>
  "close_temp tmp st = st\<lparr>files := (files st)(tmp := None)\<rparr>"

definition os_replace :: "string \<Rightarrow> string \<Rightarrow> state \<Rightarrow> state" where
  \<comment> \<open>\<open>os.replace(src, dst)\<close> for a source that exists\<close>
  "os_replace src dst st =
     emit (Replace src dst) (st\<lparr>files := ((files st)(dst := files st src))(src := None)\<rparr>)"

definition same_as_output :: "state \<Rightarrow> string \<Rightarrow> string \<Rightarrow> bool" where
  \<comment> \<open>\<open>os.path.exists(output) and self.pot_files_same(tmpfile.name, output)\<close>\<close>
  "same_as_output st tmp out =
     (case files st out of
        None \<Rightarrow> False
      | Some old \<Rightarrow> (case files st tmp of None \<Rightarrow> False | Some new \<Rightarrow> pot_files_same new old))"

definition tmp_path :: "xgettext_env \<Rightarrow> string" where
  \<comment> \<open>\<open>tmpfile.name\<close> of \<open>NamedTemporaryFile(dir=os.path.dirname(output), ...)\<close>\<close>
  "tmp_path env = named_temporary_file env (dirname (output_path env))"

definition xgettext_cmd :: "xgettext_env \<Rightarrow> string list" where
  \<comment> \<open>\<open>["xgettext", *args, "-o", tmpfile.name]\<close>\<close>
  "xgettext_cmd env = [''xgettext''] @ xgettext_args env @ [''-o'', tmp_path env]"

definition run_xgettext :: "xgettext_env \<Rightarrow> state \<Rightarrow> state" where
  \<comment> \<open>from \<open>args = self.get_xgettext_args(component)\<close> to the end of \<open>post_update\<close>\<close>
  "run_xgettext env st =
     (let tmp = tmp_path env;
          st1 = emit (CreateTemp (dirname (output_path env)) tmp)
                  (st\<lparr>files := (files st)(tmp \<mapsto> [])\<rparr>);
          cmd = xgettext_cmd env;
          st2 = emit (ExecuteProcess cmd)
                  (st1\<lparr>files := (files st1)(tmp \<mapsto> snd (execute_process env cmd)),
                       alerts := alerts st1 @ fst (execute_process env cmd)\<rparr>)
      in if alerts st2 \<noteq> [] then close_temp tmp (trigger_alerts st2)
         else if same_as_output st2 tmp (output_path env)
           then close_temp tmp (log_info ''%s addon: no updates'' st2)
         else emit (CommitAndPush [self_new_base env] (skip_push env))
                (close_temp tmp (os_replace tmp (output_path env) st2)))"

definition repo_files_of :: "xgettext_env \<Rightarrow> string list \<Rightarrow> string list" where
  \<comment> \<open>from \<open>input_files = self.load_file_list(files_from)\<close> to the set \<open>repo_files\<close>,
      for the lines of the manifest\<close>
  "repo_files_of env manifest =
     (let input_files = load_file_list manifest;
          directory = get_directory env
      in remdups (map (\<lambda>input_path. cleanup_path env (path_join directory input_path))
                    input_files))"

definition post_update :: "xgettext_env \<Rightarrow> state \<Rightarrow> exn + state" where
  "post_update env st =
     (case get_files_from env of
        None \<Rightarrow> Inr (manifest_missing env st)
      | Some files_from \<Rightarrow>
          if files_from = [] then Inr (manifest_missing env st)
          else
            (case files st files_from of
               None \<Rightarrow> Inr (manifest_missing env st)
             | Some manifest \<Rightarrow>
                 let repo_files = repo_files_of env manifest
                 in if xgettext_skips env repo_files
                    then Inr (log_info ''%s addon skipped, input files not updated in %s..%s'' st)
                    else
                      (case resolve_loop (resolve_symlinks env) repo_files st of
                         (None, st1) \<Rightarrow> Inr (run_xgettext env st1)
                       | (Some (OSError ex), st1) \<Rightarrow> Inr (manifest_invalid env ex st1)
                       | (Some (ValueError ex), st1) \<Rightarrow> Inr (manifest_invalid env ex st1)
                       | (Some ex, st1) \<Rightarrow> Inl ex)))"

section \<open>MsgmergeAddon.update\_translations\<close>

text \<open>
  A translation of the component: \<open>translation.get_filename()\<close>, \<open>is_source\<close> and
  \<open>is_template\<close>. \<open>msgmerge_args\<close> is the list \<open>self.get_msgmerge_args\<close> returns, and
  \<open>update_bilingual\<close> gives the exception that
  \<open>component.file_format_cls.update_bilingual(filename, template, args=args)\<close> raises, if
  any; the merge rewrites the translation file in place, which leaves the set of
  existing paths as it is.
\<close>

record translation =
  get_filename :: "string option"
  is_source :: bool
  is_template :: bool

record msgmerge_env = component_env +
  msgmerge_args :: "string list"
  translation_set :: "translation list"
  update_bilingual :: "string \<Rightarrow> string \<Rightarrow> string list \<Rightarrow> exn option"

definition msgmerge_name :: string where
  "msgmerge_name = ''weblate.gettext.msgmerge''"

definition skipped_translation :: "state \<Rightarrow> translation \<Rightarrow> bool" where
  \<comment> \<open>the condition of the \<open>continue\<close>\<close>
  "skipped_translation st translation =
     ((is_source translation \<and> \<not> is_template translation)
      \<or> \<not> truthy (get_filename translation)
      \<or> \<not> path_exists st (the (get_filename translation)))"

fun update_translations_loop ::
  "msgmerge_env \<Rightarrow> string \<Rightarrow> translation list \<Rightarrow> state \<Rightarrow> exn + state" where
  "update_translations_loop env template [] st = Inr st"
| "update_translations_loop env template (translation # rest) st =
     (if skipped_translation st translation
      then update_translations_loop env template rest st
      else
        (let filename = the (get_filename translation);
             args = msgmerge_args env;
             st1 = emit (UpdateBilingual filename template args) st
         in case update_bilingual env filename template args of
              None \<Rightarrow> update_translations_loop env template rest st1
            | Some (UpdateError cmd out err) \<Rightarrow>
                update_translations_loop env template rest
                  (log_info ''%s addon failed: %s''
                     (append_alert
                        \<lparr>alert_addon = msgmerge_name, alert_command = cmd,
                         alert_output = Some out, alert_error = err\<rparr> st1))
            | Some ex \<Rightarrow> Inl ex))"

definition template_missing :: "msgmerge_env \<Rightarrow> state \<Rightarrow> state" where
  "template_missing env st =
     log_info ''%s addon skipped, new base was not found''
       (trigger_alerts
          (append_alert
             \<lparr>alert_addon = msgmerge_name, alert_command = ''msgmerge'',
              alert_output = new_base_filename env,
              alert_error = ''Template for new translations not found''\<rparr> st))"

definition update_translations :: "msgmerge_env \<Rightarrow> state \<Rightarrow> exn + state" where
  "update_translations env st =
     (if msgmerge_skips env
      then Inr (log_info ''%s addon skipped, new base was not updated in %s..%s'' st)
      else
        (case new_base_filename env of
           None \<Rightarrow> Inr (template_missing env st)
         | Some template \<Rightarrow>
             if template = [] \<or> \<not> path_exists st template
             then Inr (template_missing env st)
             else
               (case update_translations_loop env template (translation_set env) st of
                  Inl ex \<Rightarrow> Inl ex
                | Inr st1 \<Rightarrow> Inr (trigger_alerts st1))))"

section \<open>Notions used to state the properties\<close>

definition line_at :: "'a list \<Rightarrow> nat \<Rightarrow> 'a option" where
  \<comment> \<open>the line with index \<open>i\<close> of a file, \<open>None\<close> past its end\<close>
  "line_at xs i = (if i < length xs then Some (xs ! i) else None)"

fun is_replace :: "event \<Rightarrow> bool" where
  "is_replace (Replace src dst) = True"
| "is_replace _ = False"

fun is_commit :: "event \<Rightarrow> bool" where
  "is_commit (CommitAndPush fs skip) = True"
| "is_commit _ = False"

fun merged_file :: "event \<Rightarrow> string option" where
  "merged_file (UpdateBilingual filename template args) = Some filename"
| "merged_file _ = None"

definition merges_attempted :: "state \<Rightarrow> string list" where
  \<comment> \<open>the translation files handed to \<open>update_bilingual\<close>, in order\<close>
  "merges_attempted st = List.map_filter merged_file (events st)"

definition merge_alert :: "msgmerge_env \<Rightarrow> string \<Rightarrow> translation \<Rightarrow> alert option" where
  \<comment> \<open>the alert that the \<open>UpdateError\<close> of a translation's merge gives rise to\<close>
  "merge_alert env template translation =
     (case update_bilingual env (the (get_filename translation)) template (msgmerge_args env) of
        Some (UpdateError cmd out err) \<Rightarrow>
          Some \<lparr>alert_addon = msgmerge_name, alert_command = cmd,
                alert_output = Some out, alert_error = err\<rparr>
      | _ \<Rightarrow> None)"

definition merge_raises_other :: "msgmerge_env \<Rightarrow> string \<Rightarrow> translation \<Rightarrow> bool" where
  \<comment> \<open>the merge of a translation raises something that is not an \<open>UpdateError\<close>\<close>
  "merge_raises_other env template translation =
     (case update_bilingual env (the (get_filename translation)) template (msgmerge_args env) of
        None \<Rightarrow> False
      | Some (UpdateError cmd out err) \<Rightarrow> False
      | Some ex \<Rightarrow> True)"

definition language_code :: "string \<Rightarrow> bool" where
  \<comment> \<open>a code that a line of a LINGUAS file can name: not empty, without \<open>#\<close> and without
      white space\<close>
  "language_code code =
     (code \<noteq> [] \<and> list_all (\<lambda>c. c \<noteq> CHR ''#'' \<and> \<not> isspace c) code)"

text \<open>
  The loop of \<open>update_linguas\<close> once more, by recursion on the lines alone: the lines that
  the first two steps of \<open>update_linguas\<close> leave (with the rewritten line, if any), the codes
  still to add, whether a line was rewritten, and how many lines are removed. Lemma
  \<open>update_linguas_scan\<close> below shows that this is what \<open>update_linguas\<close> computes.
\<close>

fun scan_lines :: "string list \<Rightarrow> string list \<Rightarrow> string list \<times> string list \<times> bool \<times> nat" where
  "scan_lines [] codes = ([], codes, False, 0)"
| "scan_lines (line # rest) codes =
     (let stripped = strip (before_hash line) in
      if stripped = [] then
        (case scan_lines rest codes of (kept, left, rewritten, n) \<Rightarrow> (line # kept, left, rewritten, n))
      else if CHR '' '' \<in> set stripped then
        (let expected = join '' '' (sort codes) in
         if stripped \<noteq> expected then ((expected @ ''\<newline>'') # rest, [], True, 0)
         else (line # rest, [], False, 0))
      else if stripped \<in> set codes then
        (case scan_lines rest (remove1 stripped codes) of
           (kept, left, rewritten, n) \<Rightarrow> (line # kept, left, rewritten, n))
      else
        (case scan_lines rest codes of (kept, left, rewritten, n) \<Rightarrow> (kept, left, rewritten, Suc n)))"


definition is_assignment :: "string \<Rightarrow> bool" where
  \<comment> \<open>a line the loop compares with the expected line: not a comment, and starting with the
      assignment once stripped\<close>
  "is_assignment line =
     (\<not> prefix ''#'' (strip line) \<and> prefix all_linguas_prefix (strip line))"

definition needs_change :: "string \<Rightarrow> string list \<Rightarrow> bool" where
  "needs_change expected lines =
     list_ex (\<lambda>line. is_assignment line \<and> line \<noteq> expected) lines"

definition rewritten_lines :: "string \<Rightarrow> string list \<Rightarrow> string list" where
  "rewritten_lines expected lines =
     map (\<lambda>line. if is_assignment line then expected else line) lines"

definition file_needs_change :: "string \<Rightarrow> state \<Rightarrow> string \<Rightarrow> bool" where
  "file_needs_change expected st path =
     (case files st path of None \<Rightarrow> False | Some lines \<Rightarrow> needs_change expected lines)"

fun written_file :: "event \<Rightarrow> string option" where
  "written_file (WriteFile path) = Some path"
| "written_file _ = None"

definition files_written :: "state \<Rightarrow> string list" where
  "files_written st = List.map_filter written_file (events st)"

definition paths_written :: "string \<Rightarrow> state \<Rightarrow> string list \<Rightarrow> string list" where
  \<comment> \<open>the candidate paths from the first one whose file needs a change\<close>
  "paths_written expected st paths = dropWhile (\<lambda>path. \<not> file_needs_change expected st path) paths"

section \<open>Example inputs\<close>

definition pot_old :: "string list" where
  "pot_old = [''msgid '' @ [CHR 0x22, CHR 0x22, CHR 0x0A],
              [CHR 0x22] @ ''POT-Creation-Date: 2024-01-01 10:00+0000'' @ [CHR 0x5C, CHR ''n'', CHR 0x22, CHR 0x0A],
              ''msgid '' @ [CHR 0x22] @ ''Hello'' @ [CHR 0x22, CHR 0x0A]]"

definition pot_new :: "string list" where
  "pot_new = [''msgid '' @ [CHR 0x22, CHR 0x22, CHR 0x0A],
              [CHR 0x22] @ ''POT-Creation-Date: 2024-02-02 12:30+0000'' @ [CHR 0x5C, CHR ''n'', CHR 0x22, CHR 0x0A],
              ''msgid '' @ [CHR 0x22] @ ''Hello'' @ [CHR 0x22, CHR 0x0A]]"

definition pot_more :: "string list" where
  "pot_more = pot_new @ [''msgid '' @ [CHR 0x22] @ ''Bye'' @ [CHR 0x22, CHR 0x0A]]"

definition example_component :: component_env where
  "example_component =
     \<lparr>previous_head = Some ''4f2a91c'', alert_exists = False,
      changed_files = [''readme.md''], component_new_base = ''template.pot'',
      new_base_filename = Some ''/repo/template.pot''\<rparr>"

definition example_xgettext :: xgettext_env where
  "example_xgettext =
     \<lparr>previous_head = Some ''4f2a91c'', alert_exists = False,
      changed_files = [], component_new_base = ''po/app.pot'',
      new_base_filename = Some ''/repo/po/app.pot'',
      output_path = ''/repo/po/app.pot'', self_new_base = ''po/app.pot'',
      configuration = Map.empty, skip_push = False,
      cleanup_path = (\<lambda>path. path), resolve_symlinks = (\<lambda>path. None),
      xgettext_args = [''--files-from=/repo/po/POTFILES.in''],
      named_temporary_file = (\<lambda>dir. path_join dir ''tmpk3x9q''),
      execute_process = (\<lambda>cmd. ([], pot_new))\<rparr>"

definition tree_without_manifest :: state where
  "tree_without_manifest =
     \<lparr>files = [''/repo/po/app.pot'' \<mapsto> pot_old], alerts = [], events = []\<rparr>"

definition tree_with_manifest :: state where
  "tree_with_manifest =
     \<lparr>files = [''/repo/po/app.pot'' \<mapsto> pot_old,
               ''/repo/po/POTFILES.in'' \<mapsto> [''# sources\<newline>'', ''src/main.c\<newline>'']],
      alerts = [], events = []\<rparr>"

definition example_msgmerge :: msgmerge_env where
  "example_msgmerge =
     \<lparr>previous_head = None, alert_exists = False, changed_files = [],
      component_new_base = ''po/app.pot'', new_base_filename = Some ''/repo/po/app.pot'',
      msgmerge_args = [''--previous''],
      translation_set =
        [\<lparr>get_filename = Some ''/repo/po/cs.po'', is_source = False, is_template = False\<rparr>,
         \<lparr>get_filename = Some ''/repo/po/de.po'', is_source = False, is_template = False\<rparr>,
         \<lparr>get_filename = Some ''/repo/po/en.po'', is_source = True, is_template = False\<rparr>,
         \<lparr>get_filename = Some ''/repo/po/fr.po'', is_source = False, is_template = False\<rparr>],
      update_bilingual = (\<lambda>filename template args.
         if filename = ''/repo/po/de.po''
         then Some (UpdateError ''msgmerge'' ''de.po:7: parse error'' ''Error 1'')
         else None)\<rparr>"

definition tree_with_translations :: state where
  "tree_with_translations =
     \<lparr>files = [''/repo/po/app.pot'' \<mapsto> pot_old, ''/repo/po/cs.po'' \<mapsto> [],
               ''/repo/po/de.po'' \<mapsto> [], ''/repo/po/en.po'' \<mapsto> [], ''/repo/po/fr.po'' \<mapsto> []],
      alerts = [], events = []\<rparr>"

definition tree_with_configure :: state where
  "tree_with_configure =
     \<lparr>files = [''/repo/configure'' \<mapsto>
                 [''# generated\<newline>'', all_linguas_prefix @ ''de'' @ [CHR 0x22, CHR 0x0A]],
               ''/repo/configure.ac'' \<mapsto>
                 [all_linguas_prefix @ ''de fr'' @ [CHR 0x22, CHR 0x0A], ''AC_OUTPUT\<newline>'']],
      alerts = [], events = []\<rparr>"

definition linguas_document :: "string list" where
  "linguas_document = [''# languages\<newline>'', ''\<newline>'', ''fr\<newline>'', ''xx\<newline>'']"

section \<open>Facts about the string primitives\<close>

lemmas ul_eval = update_linguas_def strip_def before_hash_def isspace_def Let_def

lemma sort_of_set: "distinct cs \<Longrightarrow> sort cs = sorted_list_of_set (set cs)"
  by (simp add: sorted_list_of_set_sort_remdups distinct_remdups_id)

lemmas path_eval = dirname_def path_join_def rstrip_chars_def get_files_from_def
  get_directory_def load_file_list_def repo_files_of_def tmp_path_def xgettext_cmd_def
  suffix_to_prefix

section \<open>Facts about comparing templates\<close>

lemma length_zip_longest: "length (zip_longest xs ys) = max (length xs) (length ys)"
  by (induction xs ys rule: zip_longest.induct) auto

lemma nth_zip_longest:
  "i < max (length xs) (length ys) \<Longrightarrow> zip_longest xs ys ! i = (line_at xs i, line_at ys i)"
proof (induction xs ys arbitrary: i rule: zip_longest.induct)
  case 1
  then show ?case by simp
next
  case (2 x xs)
  then show ?case by (cases i) (auto simp: line_at_def)
next
  case (3 y ys)
  then show ?case by (cases i) (auto simp: line_at_def)
next
  case (4 x xs y ys)
  then show ?case by (cases i) (auto simp: line_at_def)
qed

lemma pot_files_same_loop_iff:
  "pot_files_same_loop ps \<longleftrightarrow>
     (\<forall>p \<in> set ps. fst p = snd p \<or> (is_pot_creation_date (fst p) \<and> is_pot_creation_date (snd p)))"
  by (induction ps rule: pot_files_same_loop.induct) auto

lemmas pot_eval = pot_files_same_def pot_new_def pot_old_def pot_creation_date_start_def
  pot_creation_date_end_def suffix_def line_at_def

section \<open>Facts about the state and its effects\<close>

lemma events_emit [simp]: "events (emit e st) = events st @ [e]"
  and files_emit [simp]: "files (emit e st) = files st"
  and alerts_emit [simp]: "alerts (emit e st) = alerts st"
  by (simp_all add: emit_def)

lemma log_info_simps [simp]:
  "events (log_info m st) = events st @ [LogInfo m]"
  "files (log_info m st) = files st"
  "alerts (log_info m st) = alerts st"
  by (simp_all add: log_info_def)

lemma append_alert_simps [simp]:
  "events (append_alert a st) = events st"
  "files (append_alert a st) = files st"
  "alerts (append_alert a st) = alerts st @ [a]"
  by (simp_all add: append_alert_def)

lemma trigger_alerts_simps [simp]:
  "events (trigger_alerts st) = events st @ [TriggerAlerts (alerts st)]"
  "files (trigger_alerts st) = files st"
  "alerts (trigger_alerts st) = alerts st"
  by (simp_all add: trigger_alerts_def)

lemma close_temp_simps [simp]:
  "events (close_temp tmp st) = events st"
  "files (close_temp tmp st) = (files st)(tmp := None)"
  "alerts (close_temp tmp st) = alerts st"
  by (simp_all add: close_temp_def)

lemma os_replace_simps [simp]:
  "events (os_replace src dst st) = events st @ [Replace src dst]"
  "files (os_replace src dst st) = ((files st)(dst := files st src))(src := None)"
  "alerts (os_replace src dst st) = alerts st"
  by (simp_all add: os_replace_def)

lemma resolve_loop_effect:
  "resolve_loop resolve ps st = (res, st1) \<Longrightarrow>
     files st1 = files st \<and> alerts st1 = alerts st
     \<and> (\<exists>qs. events st1 = events st @ map ResolveSymlinks qs)"
proof (induction ps arbitrary: st)
  case Nil
  then show ?case by simp
next
  case (Cons p ps)
  show ?case
  proof (cases "resolve p")
    case None
    with Cons.prems have "resolve_loop resolve ps (emit (ResolveSymlinks p) st) = (res, st1)"
      by simp
    from Cons.IH [OF this] obtain qs where
      "files st1 = files st" "alerts st1 = alerts st"
      "events st1 = events st @ map ResolveSymlinks (p # qs)"
      by auto
    then show ?thesis by blast
  next
    case (Some ex)
    with Cons.prems have "st1 = emit (ResolveSymlinks p) st" by simp
    then have "files st1 = files st" "alerts st1 = alerts st"
      "events st1 = events st @ map ResolveSymlinks [p]"
      by simp_all
    then show ?thesis by blast
  qed
qed

text \<open>The three ways in which the tool run ends.\<close>

lemma run_xgettext_failed:
  assumes "alerts st @ fst (execute_process env (xgettext_cmd env)) \<noteq> []"
  shows "files (run_xgettext env st) = (files st)(tmp_path env := None)"
    and "alerts (run_xgettext env st) = alerts st @ fst (execute_process env (xgettext_cmd env))"
    and "events (run_xgettext env st) = events st @
          [CreateTemp (dirname (output_path env)) (tmp_path env),
           ExecuteProcess (xgettext_cmd env),
           TriggerAlerts (alerts st @ fst (execute_process env (xgettext_cmd env)))]"
  using assms by (simp_all add: run_xgettext_def Let_def)

lemma same_as_output_after_run:
  assumes "tmp \<noteq> out"
  shows "same_as_output (st\<lparr>files := (files st)(tmp \<mapsto> new)\<rparr>) tmp out \<longleftrightarrow>
     (case files st out of None \<Rightarrow> False | Some old \<Rightarrow> pot_files_same new old)"
  using assms by (simp add: same_as_output_def split: option.splits)

lemma run_xgettext_unchanged:
  assumes "alerts st = []" "fst (execute_process env (xgettext_cmd env)) = []"
    and "tmp_path env \<noteq> output_path env"
    and "files st (output_path env) = Some old"
    and "pot_files_same (snd (execute_process env (xgettext_cmd env))) old"
  shows "files (run_xgettext env st) = (files st)(tmp_path env := None)"
    and "alerts (run_xgettext env st) = []"
    and "events (run_xgettext env st) = events st @
          [CreateTemp (dirname (output_path env)) (tmp_path env),
           ExecuteProcess (xgettext_cmd env),
           LogInfo ''%s addon: no updates'']"
  using assms by (simp_all add: run_xgettext_def Let_def same_as_output_def emit_def)

lemma run_xgettext_promoted:
  assumes "alerts st = []" "fst (execute_process env (xgettext_cmd env)) = []"
    and "tmp_path env \<noteq> output_path env"
    and "case files st (output_path env) of None \<Rightarrow> True
         | Some old \<Rightarrow> \<not> pot_files_same (snd (execute_process env (xgettext_cmd env))) old"
  shows "files (run_xgettext env st) =
           ((files st)(output_path env \<mapsto> snd (execute_process env (xgettext_cmd env))))
             (tmp_path env := None)"
    and "alerts (run_xgettext env st) = []"
    and "events (run_xgettext env st) = events st @
          [CreateTemp (dirname (output_path env)) (tmp_path env),
           ExecuteProcess (xgettext_cmd env),
           Replace (tmp_path env) (output_path env),
           CommitAndPush [self_new_base env] (skip_push env)]"
  using assms by (auto simp add: run_xgettext_def Let_def same_as_output_def emit_def split: option.splits)


lemma no_replace_in_resolves [simp]:
  "\<not> list_ex is_replace (map ResolveSymlinks qs)"
  "\<not> list_ex is_commit (map ResolveSymlinks qs)"
  "CreateTemp d t \<notin> ResolveSymlinks ` set qs"
  "ExecuteProcess c \<notin> ResolveSymlinks ` set qs"
  by (auto simp: list_ex_iff)

lemma post_update_cases:
  assumes "post_update env st = Inr st'"
  obtains
    (missing) "st' = manifest_missing env st"
  | (skipped) "st' = log_info ''%s addon skipped, input files not updated in %s..%s'' st"
  | (invalid) st1 ex qs where "st' = manifest_invalid env ex st1"
      "files st1 = files st" "alerts st1 = alerts st"
      "events st1 = events st @ map ResolveSymlinks qs"
  | (ran) st1 qs where "st' = run_xgettext env st1"
      "files st1 = files st" "alerts st1 = alerts st"
      "events st1 = events st @ map ResolveSymlinks qs"
proof (cases "get_files_from env")
  case None
  with assms missing show ?thesis by (simp add: post_update_def)
next
  case (Some files_from)
  note ff = this
  show ?thesis
  proof (cases "files_from = [] \<or> files st files_from = None")
    case True
    with assms ff missing show ?thesis by (auto simp add: post_update_def split: if_splits)
  next
    case False
    then obtain manifest where m: "files_from \<noteq> []" "files st files_from = Some manifest"
      by auto
    show ?thesis
    proof (cases "xgettext_skips env (repo_files_of env manifest)")
      case True
      with assms ff m skipped show ?thesis by (simp add: post_update_def)
    next
      case False
      obtain res st1 where
        r: "resolve_loop (resolve_symlinks env) (repo_files_of env manifest) st = (res, st1)"
        by (cases "resolve_loop (resolve_symlinks env) (repo_files_of env manifest) st")
      from resolve_loop_effect [OF r] obtain qs where
        eff: "files st1 = files st" "alerts st1 = alerts st"
          "events st1 = events st @ map ResolveSymlinks qs"
        by blast
      show ?thesis
      proof (cases res)
        case None
        with assms ff m False r have "st' = run_xgettext env st1"
          by (simp add: post_update_def)
        with eff ran show ?thesis by blast
      next
        case (Some e)
        with assms ff m False r have "\<exists>ex. st' = manifest_invalid env ex st1"
          by (cases e) (auto simp add: post_update_def)
        with eff invalid show ?thesis by blast
      qed
    qed
  qed
qed

lemma manifest_missing_simps [simp]:
  "files (manifest_missing env st) = files st"
  "alerts (manifest_missing env st) =
     alerts st @ [xgettext_alert env ''Input list (POTFILES.in) file not found'']"
  "events (manifest_missing env st) = events st @
     [TriggerAlerts (alerts st @ [xgettext_alert env ''Input list (POTFILES.in) file not found'']),
      LogInfo ''%s addon skipped, input file list not found'']"
  by (simp_all add: manifest_missing_def)

lemma manifest_invalid_simps [simp]:
  "files (manifest_invalid env ex st) = files st"
  "alerts (manifest_invalid env ex st) = alerts st @ [xgettext_alert env ex]"
  "events (manifest_invalid env ex st) = events st @
     [TriggerAlerts (alerts st @ [xgettext_alert env ex]),
      LogInfo ''%s addon skipped, input file list is invalid: %s'']"
  by (simp_all add: manifest_invalid_def)

lemma run_xgettext_events:
  "\<exists>evs. events (run_xgettext env st) = events st @
      CreateTemp (dirname (output_path env)) (tmp_path env)
      # ExecuteProcess (xgettext_cmd env) # evs"
  by (simp add: run_xgettext_def Let_def)

lemma post_update_skip_iff:
  assumes "get_files_from env = Some files_from" "files_from \<noteq> []"
    and "files st files_from = Some manifest"
  shows "post_update env st
           = Inr (log_info ''%s addon skipped, input files not updated in %s..%s'' st)
         \<longleftrightarrow> xgettext_skips env (repo_files_of env manifest)"
proof (cases "xgettext_skips env (repo_files_of env manifest)")
  case True
  with assms show ?thesis by (simp add: post_update_def)
next
  case False
  obtain res st1 where
    r: "resolve_loop (resolve_symlinks env) (repo_files_of env manifest) st = (res, st1)"
    by (cases "resolve_loop (resolve_symlinks env) (repo_files_of env manifest) st")
  from resolve_loop_effect [OF r] obtain qs where
    ev: "events st1 = events st @ map ResolveSymlinks qs"
    by blast
  have "post_update env st \<noteq> Inr (log_info ''%s addon skipped, input files not updated in %s..%s'' st)"
  proof
    assume eq: "post_update env st = Inr (log_info ''%s addon skipped, input files not updated in %s..%s'' st)"
    show False
    proof (cases res)
      case None
      with eq assms False r
      have "run_xgettext env st1 = log_info ''%s addon skipped, input files not updated in %s..%s'' st"
        by (simp add: post_update_def)
      then have "length (events (run_xgettext env st1)) = Suc (length (events st))"
        by simp
      moreover from run_xgettext_events [of env st1] ev
      have "length (events (run_xgettext env st1)) \<ge> length (events st) + 2"
        by auto
      ultimately show False by simp
    next
      case (Some e)
      with eq assms False r
      have "\<exists>ex. manifest_invalid env ex st1 = log_info ''%s addon skipped, input files not updated in %s..%s'' st"
        by (cases e) (auto simp add: post_update_def)
      then obtain ex where "manifest_invalid env ex st1 = log_info ''%s addon skipped, input files not updated in %s..%s'' st"
        by blast
      then have "length (events (manifest_invalid env ex st1))
          = length (events (log_info ''%s addon skipped, input files not updated in %s..%s'' st))"
        by (rule arg_cong)
      with ev show False by simp
    qed
  qed
  with False show ?thesis by simp
qed

lemma update_translations_loop_events:
  "update_translations_loop env template ts st = Inr st' \<Longrightarrow>
     \<exists>evs. events st' = events st @ evs"
proof (induction ts arbitrary: st)
  case Nil
  then show ?case by simp
next
  case (Cons t ts)
  show ?case
  proof (cases "skipped_translation st t")
    case True
    with Cons show ?thesis by simp
  next
    case False
    let ?f = "the (get_filename t)"
    show ?thesis
    proof (cases "update_bilingual env ?f template (msgmerge_args env)")
      case None
      with False Cons.prems Cons.IH [of "emit (UpdateBilingual ?f template (msgmerge_args env)) st"]
      show ?thesis by (auto simp: Let_def)
    next
      case (Some ex)
      with False Cons.prems show ?thesis
        by (cases ex) (auto simp: Let_def dest!: Cons.IH)
    qed
  qed
qed

lemma update_translations_skip_iff:
  "update_translations env st
     = Inr (log_info ''%s addon skipped, new base was not updated in %s..%s'' st)
   \<longleftrightarrow> msgmerge_skips env"
proof (cases "msgmerge_skips env")
  case True
  then show ?thesis by (simp add: update_translations_def)
next
  case False
  let ?skip = "log_info ''%s addon skipped, new base was not updated in %s..%s'' st"
  have "update_translations env st \<noteq> Inr ?skip"
  proof
    assume eq: "update_translations env st = Inr ?skip"
    show False
    proof (cases "\<exists>template. new_base_filename env = Some template \<and> template \<noteq> []
                     \<and> path_exists st template")
      case False
      with eq \<open>\<not> msgmerge_skips env\<close> have "template_missing env st = ?skip"
        by (auto simp: update_translations_def split: option.splits if_splits)
      then have "length (events (template_missing env st)) = length (events ?skip)" by simp
      then show False by (simp add: template_missing_def)
    next
      case True
      then obtain template where t: "new_base_filename env = Some template" "template \<noteq> []"
        "path_exists st template" by blast
      with eq \<open>\<not> msgmerge_skips env\<close> obtain st1 where
        l: "update_translations_loop env template (translation_set env) st = Inr st1"
        and "trigger_alerts st1 = ?skip"
        by (auto simp: update_translations_def split: sum.splits)
      then have "last (events (trigger_alerts st1)) = last (events ?skip)" by simp
      then show False by simp
    qed
  qed
  with False show ?thesis by simp
qed

lemmas run_eval = post_update_def run_xgettext_def manifest_missing_def manifest_invalid_def
  xgettext_alert_def xgettext_name_def log_info_def emit_def trigger_alerts_def append_alert_def
  close_temp_def os_replace_def same_as_output_def xgettext_skips_def Let_def

lemma example_run_unchanged:
  "map_sum id events (post_update (example_xgettext\<lparr>alert_exists := True\<rparr>) tree_with_manifest)
    = Inr [ResolveSymlinks ''src/main.c'', CreateTemp ''/repo/po'' ''/repo/po/tmpk3x9q'',
           ExecuteProcess [''xgettext'', ''--files-from=/repo/po/POTFILES.in'', ''-o'', ''/repo/po/tmpk3x9q''],
           LogInfo ''%s addon: no updates'']"
  by (simp add: example_xgettext_def tree_with_manifest_def path_eval run_eval pot_eval)

lemma example_run_promoted:
  "map_sum id events (post_update (example_xgettext\<lparr>alert_exists := True, execute_process := (\<lambda>cmd. ([], pot_more))\<rparr>) tree_with_manifest)
    = Inr [ResolveSymlinks ''src/main.c'', CreateTemp ''/repo/po'' ''/repo/po/tmpk3x9q'',
           ExecuteProcess [''xgettext'', ''--files-from=/repo/po/POTFILES.in'', ''-o'', ''/repo/po/tmpk3x9q''],
           Replace ''/repo/po/tmpk3x9q'' ''/repo/po/app.pot'',
           CommitAndPush [''po/app.pot''] False]"
  by (simp add: example_xgettext_def tree_with_manifest_def path_eval run_eval pot_eval pot_more_def)


section \<open>Facts about the merge loop\<close>

lemma skipped_translation_files:
  "files st1 = files st \<Longrightarrow> skipped_translation st1 t = skipped_translation st t"
  by (simp add: skipped_translation_def path_exists_def)

lemma map_filter_append: "List.map_filter f (xs @ ys) = List.map_filter f xs @ List.map_filter f ys"
  by (simp add: List.map_filter_def)

lemma update_translations_loop_result:
  assumes "\<forall>t \<in> set ts. \<not> skipped_translation st t \<longrightarrow> \<not> merge_raises_other env template t"
  shows "\<exists>st'. update_translations_loop env template ts st = Inr st'
           \<and> files st' = files st
           \<and> merges_attempted st' = merges_attempted st
                @ map (\<lambda>t. the (get_filename t)) (filter (\<lambda>t. \<not> skipped_translation st t) ts)
           \<and> alerts st' = alerts st
                @ List.map_filter (merge_alert env template)
                    (filter (\<lambda>t. \<not> skipped_translation st t) ts)"
  using assms
proof (induction ts arbitrary: st)
  case Nil
  then show ?case by (simp add: map_filter_simps)
next
  case (Cons t ts)
  show ?case
  proof (cases "skipped_translation st t")
    case True
    with Cons.IH [of st] Cons.prems show ?thesis by simp
  next
    case False
    let ?f = "the (get_filename t)"
    let ?st1 = "emit (UpdateBilingual ?f template (msgmerge_args env)) st"
    from False Cons.prems have no_other: "\<not> merge_raises_other env template t" by simp
    show ?thesis
    proof (cases "update_bilingual env ?f template (msgmerge_args env)")
      case None
      have same: "\<And>u. skipped_translation ?st1 u = skipped_translation st u"
        by (rule skipped_translation_files) simp
      from Cons.prems have "\<forall>u \<in> set ts. \<not> skipped_translation ?st1 u \<longrightarrow> \<not> merge_raises_other env template u"
        by (simp add: same)
      from Cons.IH [OF this] obtain st' where
        "update_translations_loop env template ts ?st1 = Inr st'"
        "files st' = files ?st1"
        "merges_attempted st' = merges_attempted ?st1
                @ map (\<lambda>t. the (get_filename t)) (filter (\<lambda>t. \<not> skipped_translation ?st1 t) ts)"
        "alerts st' = alerts ?st1
                @ List.map_filter (merge_alert env template)
                    (filter (\<lambda>t. \<not> skipped_translation ?st1 t) ts)"
        by blast
      moreover have "merge_alert env template t = None"
        using None by (simp add: merge_alert_def)
      ultimately show ?thesis using False None
        by (simp add: same merges_attempted_def map_filter_append map_filter_simps Let_def)
    next
      case (Some ex)
      with no_other obtain cmd out err where ex: "ex = UpdateError cmd out err"
        by (cases ex) (auto simp: merge_raises_other_def)
      let ?a = "\<lparr>alert_addon = msgmerge_name, alert_command = cmd,
                         alert_output = Some out, alert_error = err\<rparr>"
      let ?st2 = "log_info ''%s addon failed: %s'' (append_alert ?a ?st1)"
      have same: "\<And>u. skipped_translation ?st2 u = skipped_translation st u"
        by (rule skipped_translation_files) simp
      from Cons.prems have "\<forall>u \<in> set ts. \<not> skipped_translation ?st2 u \<longrightarrow> \<not> merge_raises_other env template u"
        by (simp add: same)
      from Cons.IH [OF this] obtain st' where
        "update_translations_loop env template ts ?st2 = Inr st'"
        "files st' = files ?st2"
        "merges_attempted st' = merges_attempted ?st2
                @ map (\<lambda>t. the (get_filename t)) (filter (\<lambda>t. \<not> skipped_translation ?st2 t) ts)"
        "alerts st' = alerts ?st2
                @ List.map_filter (merge_alert env template)
                    (filter (\<lambda>t. \<not> skipped_translation ?st2 t) ts)"
        by blast
      moreover have "merge_alert env template t = Some ?a"
        using Some ex by (simp add: merge_alert_def)
      ultimately show ?thesis using False Some ex
        by (simp add: same merges_attempted_def map_filter_append map_filter_simps Let_def)
    qed
  qed
qed

section \<open>Facts about update\_linguas\<close>

lemma del_at_length: "del_at (length pre) (pre @ x # xs) = pre @ xs"
  by (simp add: del_at_def)

lemma update_linguas_loop_scan:
  assumes "length pre = i" and "scan_lines rest codes = (kept, left, rewritten, n)"
  shows "\<exists>lines1 rs. update_linguas_loop i rest (pre @ rest) codes remove
             = (rewritten, lines1, left, remove @ rs)
           \<and> length rs = n \<and> fold del_at (rev rs) lines1 = pre @ kept"
  using assms
proof (induction rest arbitrary: i pre codes remove kept left rewritten n)
  case Nil
  then show ?case by simp
next
  case (Cons line rest)
  let ?s = "strip (before_hash line)"
  have pre': "length (pre @ [line]) = Suc i" using Cons.prems(1) by simp
  consider (blank) "?s = []"
    | (legacy) "?s \<noteq> []" "CHR '' '' \<in> set ?s"
    | (present) "?s \<noteq> []" "CHR '' '' \<notin> set ?s" "?s \<in> set codes"
    | (absent) "?s \<noteq> []" "CHR '' '' \<notin> set ?s" "?s \<notin> set codes"
    by blast
  then show ?case
  proof cases
    case blank
    obtain k where k: "scan_lines rest codes = (k, left, rewritten, n)" "kept = line # k"
      using Cons.prems(2) blank by (auto split: prod.splits)
    from Cons.IH [OF pre' k(1), of remove] blank k(2) show ?thesis by simp
  next
    case legacy
    let ?e = "join '' '' (sort codes)"
    show ?thesis
    proof (cases "?s = ?e")
      case True
      with legacy Cons.prems have "kept = line # rest" "left = []" "\<not> rewritten" "n = 0"
        by (simp_all add: Let_def)
      with legacy True show ?thesis by (simp add: Let_def)
    next
      case False
      with legacy Cons.prems(2) have "kept = (?e @ ''\<newline>'') # rest" "left = []" "rewritten" "n = 0"
        by (simp_all add: Let_def)
      with legacy False Cons.prems(1) show ?thesis
        by (simp add: Let_def list_update_append)
    qed
  next
    case present
    obtain k where k: "scan_lines rest (remove1 ?s codes) = (k, left, rewritten, n)"
      "kept = line # k"
      using Cons.prems(2) present by (auto split: prod.splits)
    from Cons.IH [OF pre' k(1), of remove] present k(2) show ?thesis by simp
  next
    case absent
    obtain m where m: "scan_lines rest codes = (kept, left, rewritten, m)" "n = Suc m"
      using Cons.prems(2) absent by (auto split: prod.splits)
    from Cons.IH [OF pre' m(1), of "remove @ [i]"] obtain lines1 rs where
      l: "update_linguas_loop (Suc i) rest ((pre @ [line]) @ rest) codes (remove @ [i])
            = (rewritten, lines1, left, (remove @ [i]) @ rs)"
         "length rs = m" "fold del_at (rev rs) lines1 = (pre @ [line]) @ kept"
      by blast
    have "fold del_at (rev (i # rs)) lines1 = pre @ kept"
      using l(3) Cons.prems(1) del_at_length [of pre line kept] by simp
    with l(1,2) absent m(2) show ?thesis
      by (intro exI [of _ lines1] exI [of _ "i # rs"]) simp
  qed
qed

lemma update_linguas_scan:
  assumes "scan_lines lines codes = (kept, left, rewritten, n)"
  shows "update_linguas lines codes
           = (rewritten \<or> n \<noteq> 0 \<or> left \<noteq> [], kept @ map (\<lambda>code. code @ ''\<newline>'') left)"
proof -
  from update_linguas_loop_scan [of "[]" 0, OF _ assms, of "[]"] obtain lines1 rs where
    "update_linguas_loop 0 lines lines codes [] = (rewritten, lines1, left, rs)"
    "length rs = n" "fold del_at (rev rs) lines1 = kept"
    by auto
  then show ?thesis
    by (cases "rs = []") (auto simp: update_linguas_def)
qed

lemma isspace_newline [simp]: "isspace (CHR 0x0A)" and isspace_space [simp]: "isspace CHR '' ''"
  by (simp_all add: isspace_def)

lemma strip_line:
  assumes "CHR ''#'' \<notin> set s" and "s \<noteq> [] \<Longrightarrow> \<not> isspace (hd s) \<and> \<not> isspace (last s)"
  shows "strip (before_hash (s @ ''\<newline>'')) = s"
proof (cases "s = []")
  case True
  then show ?thesis by (simp add: strip_def before_hash_def)
next
  case False
  with assms(2) have ends: "\<not> isspace (hd s)" "\<not> isspace (last s)" by simp_all
  have "before_hash (s @ ''\<newline>'') = s @ ''\<newline>''"
    unfolding before_hash_def using assms(1) by (intro takeWhile_eq_all_conv [THEN iffD2]) auto
  moreover have "dropWhile isspace (s @ ''\<newline>'') = s @ ''\<newline>''"
    using False ends(1) by (cases s) simp_all
  moreover have "dropWhile isspace (rev (s @ ''\<newline>'')) = rev s"
    using False ends(2) by (cases s rule: rev_cases) simp_all
  ultimately show ?thesis by (simp add: strip_def)
qed

lemma language_code_line:
  assumes "language_code code"
  shows "strip (before_hash (code @ ''\<newline>'')) = code"
proof (rule strip_line)
  from assms have all: "\<forall>c \<in> set code. c \<noteq> CHR ''#'' \<and> \<not> isspace c"
    by (simp add: language_code_def list_all_iff)
  then show "CHR ''#'' \<notin> set code" by blast
  assume "code \<noteq> []"
  then have "hd code \<in> set code" "last code \<in> set code" by simp_all
  with all show "\<not> isspace (hd code) \<and> \<not> isspace (last code)" by blast
qed


lemma language_code_nonempty: "language_code code \<Longrightarrow> code \<noteq> []"
  unfolding language_code_def by blast

lemma language_code_chars:
  assumes "language_code code" "c \<in> set code"
  shows "c \<noteq> CHR ''#''" and "\<not> isspace c"
  using assms unfolding language_code_def list_all_iff by blast+

lemma join_no_hash:
  assumes "\<forall>c \<in> set cs. language_code c"
  shows "CHR ''#'' \<notin> set (join '' '' cs)"
  using assms
proof (induction cs rule: induct_list012)
  case 1
  then show ?case by simp
next
  case (2 x)
  then have "language_code x" by simp
  then show ?case using language_code_chars(1) [of x "CHR ''#''"] by auto
next
  case (3 x y ys)
  then have "language_code x" and "CHR ''#'' \<notin> set (join '' '' (y # ys))" by simp_all
  then show ?case using language_code_chars(1) [of x "CHR ''#''"] by auto
qed

lemma join_nonempty:
  assumes "\<forall>c \<in> set cs. language_code c" "cs \<noteq> []"
  shows "join '' '' cs \<noteq> []"
proof (cases cs)
  case Nil
  with assms(2) show ?thesis by simp
next
  case (Cons x xs)
  with assms(1) have "x \<noteq> []" by (simp add: language_code_nonempty)
  with Cons show ?thesis by (cases xs) simp_all
qed

lemma join_hd:
  assumes "\<forall>c \<in> set cs. language_code c" "cs \<noteq> []"
  shows "\<not> isspace (hd (join '' '' cs))"
proof (cases cs)
  case Nil
  with assms(2) show ?thesis by simp
next
  case (Cons x xs)
  with assms(1) have x: "language_code x" by simp
  then have "x \<noteq> []" by (rule language_code_nonempty)
  then have "hd x \<in> set x" by simp
  with x have "\<not> isspace (hd x)" by (rule language_code_chars(2))
  moreover have "hd (join '' '' cs) = hd x"
    using Cons \<open>x \<noteq> []\<close> by (cases xs) simp_all
  ultimately show ?thesis by simp
qed

lemma join_last:
  assumes "\<forall>c \<in> set cs. language_code c" "cs \<noteq> []"
  shows "\<not> isspace (last (join '' '' cs))"
  using assms
proof (induction cs rule: induct_list012)
  case 1
  then show ?case by simp
next
  case (2 x)
  then have x: "language_code x" by simp
  then have "x \<noteq> []" by (rule language_code_nonempty)
  then have "last x \<in> set x" by simp
  with x have "\<not> isspace (last x)" by (rule language_code_chars(2))
  then show ?case by simp
next
  case (3 x y ys)
  then have "join '' '' (y # ys) \<noteq> []" by (intro join_nonempty) simp_all
  moreover from 3 have "\<not> isspace (last (join '' '' (y # ys)))" by simp
  ultimately show ?case by simp
qed

lemma join_line:
  assumes "\<forall>c \<in> set cs. language_code c"
  shows "strip (before_hash (join '' '' cs @ ''\<newline>'')) = join '' '' cs"
proof (rule strip_line)
  show "CHR ''#'' \<notin> set (join '' '' cs)" using assms by (rule join_no_hash)
  assume "join '' '' cs \<noteq> []"
  then have "cs \<noteq> []" by auto
  with assms show "\<not> isspace (hd (join '' '' cs)) \<and> \<not> isspace (last (join '' '' cs))"
    by (simp add: join_hd join_last)
qed


lemma scan_lines_length:
  "scan_lines lines codes = (kept, left, rewritten, n) \<Longrightarrow> length kept + n = length lines"
proof (induction lines arbitrary: codes kept left rewritten n)
  case Nil
  then show ?case by simp
next
  case (Cons line rest)
  then show ?case
    by (auto simp: Let_def split: if_splits prod.splits)
qed

lemma scan_lines_unchanged:
  "scan_lines lines codes = (kept, left, False, 0) \<Longrightarrow> kept = lines"
proof (induction lines arbitrary: codes kept left)
  case Nil
  then show ?case by simp
next
  case (Cons line rest)
  then show ?case
    by (auto simp: Let_def split: if_splits prod.splits)
qed

lemma scan_lines_rewritten:
  assumes "scan_lines lines codes = (kept, left, True, 0)"
    and "\<forall>c \<in> set codes. language_code c"
  shows "kept \<noteq> lines"
  using assms
proof (induction lines arbitrary: codes kept left)
  case Nil
  then show ?case by simp
next
  case (Cons line rest)
  let ?s = "strip (before_hash line)"
  let ?e = "join '' '' (sort codes)"
  consider (blank) "?s = []"
    | (legacy) "?s \<noteq> []" "CHR '' '' \<in> set ?s"
    | (present) "?s \<noteq> []" "CHR '' '' \<notin> set ?s" "?s \<in> set codes"
    | (absent) "?s \<noteq> []" "CHR '' '' \<notin> set ?s" "?s \<notin> set codes"
    by blast
  then show ?case
  proof cases
    case blank
    with Cons.prems obtain k where "scan_lines rest codes = (k, left, True, 0)" "kept = line # k"
      by (auto split: prod.splits)
    with Cons.IH [of codes k left] Cons.prems(2) show ?thesis by simp
  next
    case legacy
    with Cons.prems(1) have ne: "?s \<noteq> ?e" and k: "kept = (?e @ ''\<newline>'') # rest"
      by (auto simp: Let_def split: if_splits)
    have "\<forall>c \<in> set (sort codes). language_code c" using Cons.prems(2) by simp
    then have "strip (before_hash (?e @ ''\<newline>'')) = ?e" by (rule join_line)
    with ne have "line \<noteq> ?e @ ''\<newline>''" by auto
    with k show ?thesis by simp
  next
    case present
    with Cons.prems obtain k where
      "scan_lines rest (remove1 ?s codes) = (k, left, True, 0)" "kept = line # k"
      by (auto split: prod.splits)
    moreover have "\<forall>c \<in> set (remove1 ?s codes). language_code c"
      using Cons.prems(2) by (meson notin_set_remove1)
    ultimately show ?thesis using Cons.IH [of "remove1 ?s codes" k left] by simp
  next
    case absent
    with Cons.prems(1) show ?thesis by (auto split: prod.splits)
  qed
qed

text \<open>No line of the document names a code that is still missing after the scan.\<close>

lemma scan_lines_left:
  assumes "scan_lines lines codes = (kept, left, rewritten, n)"
    and "distinct codes" and "[] \<notin> set codes"
  shows "distinct left \<and> set left \<subseteq> set codes
         \<and> (\<forall>line \<in> set lines. strip (before_hash line) \<notin> set left)"
  using assms
proof (induction lines arbitrary: codes kept left rewritten n)
  case Nil
  then show ?case by simp
next
  case (Cons line rest)
  let ?s = "strip (before_hash line)"
  consider (blank) "?s = []"
    | (legacy) "?s \<noteq> []" "CHR '' '' \<in> set ?s"
    | (present) "?s \<noteq> []" "CHR '' '' \<notin> set ?s" "?s \<in> set codes"
    | (absent) "?s \<noteq> []" "CHR '' '' \<notin> set ?s" "?s \<notin> set codes"
    by blast
  then show ?case
  proof cases
    case blank
    with Cons.prems(1) obtain k where "scan_lines rest codes = (k, left, rewritten, n)"
      by (auto split: prod.splits)
    from Cons.IH [OF this Cons.prems(2,3)] blank Cons.prems(3) show ?thesis by auto
  next
    case legacy
    with Cons.prems(1) have "left = []" by (auto simp: Let_def split: if_splits)
    then show ?thesis by simp
  next
    case present
    with Cons.prems(1) obtain k where
      "scan_lines rest (remove1 ?s codes) = (k, left, rewritten, n)"
      by (auto split: prod.splits)
    moreover have "distinct (remove1 ?s codes)" "[] \<notin> set (remove1 ?s codes)"
      using Cons.prems(2,3) by (auto dest: notin_set_remove1)
    ultimately have ih: "distinct left" "set left \<subseteq> set (remove1 ?s codes)"
      "\<forall>line \<in> set rest. strip (before_hash line) \<notin> set left"
      using Cons.IH [of "remove1 ?s codes" k left rewritten n] by simp_all
    from ih(2) Cons.prems(2) have "?s \<notin> set left" "set left \<subseteq> set codes"
      by (auto simp: set_remove1_eq)
    with ih show ?thesis by simp
  next
    case absent
    with Cons.prems(1) obtain m where "scan_lines rest codes = (kept, left, rewritten, m)"
      by (auto split: prod.splits)
    from Cons.IH [OF this Cons.prems(2,3)] absent show ?thesis by auto
  qed
qed

lemma update_linguas_changed_iff:
  assumes "distinct codes" and "\<forall>c \<in> set codes. language_code c"
  shows "fst (update_linguas lines codes) \<longleftrightarrow> snd (update_linguas lines codes) \<noteq> lines"
proof -
  obtain kept left rewritten n where s: "scan_lines lines codes = (kept, left, rewritten, n)"
    by (cases "scan_lines lines codes") auto
  note u = update_linguas_scan [OF s]
  have len: "length kept + n = length lines" using s by (rule scan_lines_length)
  have noempty: "[] \<notin> set codes" using assms(2) language_code_nonempty by blast
  show ?thesis
  proof (cases "left = []")
    case True
    note left = this
    show ?thesis
    proof (cases "n = 0")
      case True
      show ?thesis
      proof (cases rewritten)
        case True
        with s \<open>n = 0\<close> have "scan_lines lines codes = (kept, left, True, 0)" by simp
        then have "kept \<noteq> lines" using assms(2) by (rule scan_lines_rewritten)
        with u left \<open>n = 0\<close> True show ?thesis by simp
      next
        case False
        with s \<open>n = 0\<close> have "scan_lines lines codes = (kept, left, False, 0)" by simp
        then have "kept = lines" by (rule scan_lines_unchanged)
        with u left \<open>n = 0\<close> False show ?thesis by simp
      qed
    next
      case False
      with len have "length kept \<noteq> length lines" by simp
      then have "kept \<noteq> lines" by auto
      with u left False show ?thesis by simp
    qed
  next
    case False
    let ?new = "map (\<lambda>code. code @ ''\<newline>'') left"
    from scan_lines_left [OF s assms(1) noempty]
    have sub: "set left \<subseteq> set codes"
      and fresh: "\<forall>line \<in> set lines. strip (before_hash line) \<notin> set left"
      by simp_all
    have "kept @ ?new \<noteq> lines"
    proof
      assume eq: "kept @ ?new = lines"
      from False have "last left \<in> set left" by simp
      with sub assms(2) have "language_code (last left)" by blast
      then have tok: "strip (before_hash (last left @ ''\<newline>'')) = last left"
        by (rule language_code_line)
      from False eq have "last lines = last left @ ''\<newline>''"
        by (auto simp: last_map)
      moreover from False eq have "last lines \<in> set lines"
        by (metis Nil_is_append_conv Nil_is_map_conv last_in_set)
      ultimately have "strip (before_hash (last left @ ''\<newline>'')) \<notin> set left"
        using fresh by metis
      with tok \<open>last left \<in> set left\<close> show False by simp
    qed
    with u False show ?thesis by simp
  qed
qed

lemma update_linguas_unchanged:
  "\<not> fst (update_linguas lines codes) \<Longrightarrow> snd (update_linguas lines codes) = lines"
proof -
  assume a: "\<not> fst (update_linguas lines codes)"
  obtain kept left rewritten n where s: "scan_lines lines codes = (kept, left, rewritten, n)"
    by (cases "scan_lines lines codes") auto
  note u = update_linguas_scan [OF s]
  with a have "\<not> rewritten" "n = 0" "left = []" by simp_all
  with s have "scan_lines lines codes = (kept, left, False, 0)" by simp
  then have "kept = lines" by (rule scan_lines_unchanged)
  with u \<open>left = []\<close> show ?thesis by simp
qed




section \<open>Facts about the configure files\<close>

lemma configure_loop_result:
  assumes "length pre = i"
  shows "configure_loop i rest expected (pre @ rest) added
           = (pre @ rewritten_lines expected rest, added \<or> needs_change expected rest)"
  using assms
proof (induction rest arbitrary: i pre added)
  case Nil
  then show ?case by (simp add: rewritten_lines_def needs_change_def)
next
  case (Cons line rest)
  have pre': "length (pre @ [line]) = Suc i" using Cons.prems by simp
  show ?case
  proof (cases "is_assignment line")
    case False
    with Cons.IH [OF pre', of added] show ?thesis
      by (auto simp: is_assignment_def rewritten_lines_def needs_change_def Let_def)
  next
    case True
    show ?thesis
    proof (cases "line = expected")
      case True
      with \<open>is_assignment line\<close> Cons.IH [OF pre', of added] show ?thesis
        by (auto simp: is_assignment_def rewritten_lines_def needs_change_def Let_def)
    next
      case False
      have upd: "(pre @ line # rest)[i := expected] = (pre @ [expected]) @ rest"
        using Cons.prems by (simp add: list_update_append)
      have pre'': "length (pre @ [expected]) = Suc i" using Cons.prems by simp
      from False \<open>is_assignment line\<close> Cons.IH [OF pre'', of True] show ?thesis
        by (simp add: upd is_assignment_def rewritten_lines_def needs_change_def Let_def
            del: append.simps append_assoc)
    qed
  qed
qed

lemma rewritten_lines_idem:
  "rewritten_lines expected (rewritten_lines expected lines) = rewritten_lines expected lines"
  by (simp add: rewritten_lines_def)

lemma rewritten_lines_same:
  "\<not> needs_change expected lines \<Longrightarrow> rewritten_lines expected lines = lines"
  by (induction lines) (auto simp: rewritten_lines_def needs_change_def)

lemma rewritten_lines_differ:
  "needs_change expected lines \<Longrightarrow> rewritten_lines expected lines \<noteq> lines"
  by (induction lines) (auto simp: rewritten_lines_def needs_change_def)


lemma configure_paths_loop_result:
  assumes "configure_paths_loop paths expected added st = Inr (added', st')"
  shows "added' = (added \<or> list_ex (file_needs_change expected st) paths)
     \<and> alerts st' = alerts st
     \<and> events st' = events st
          @ map WriteFile (if added then paths else paths_written expected st paths)
     \<and> (\<forall>p. files st' p =
           (if p \<in> set (if added then paths else paths_written expected st paths)
            then map_option (rewritten_lines expected) (files st p) else files st p))"
  using assms
proof (induction paths arbitrary: added st)
  case Nil
  then show ?case by (simp add: paths_written_def)
next
  case (Cons path paths)
  from Cons.prems obtain lines where lines: "files st path = Some lines"
    by (cases "files st path") simp_all
  have loop: "configure_loop 0 lines expected lines added
      = (rewritten_lines expected lines, added \<or> needs_change expected lines)"
    using configure_loop_result [of "[]" 0 lines expected added] by simp
  have fnc: "file_needs_change expected st path = needs_change expected lines"
    by (simp add: file_needs_change_def lines)
  show ?case
  proof (cases "added \<or> needs_change expected lines")
    case True
    let ?st1 = "emit (WriteFile path)
                  (st\<lparr>files := (files st)(path \<mapsto> rewritten_lines expected lines)\<rparr>)"
    from Cons.prems lines loop True
    have "configure_paths_loop paths expected True ?st1 = Inr (added', st')"
      by simp
    from Cons.IH [OF this]
    have ih: "added'" "alerts st' = alerts st"
      "events st' = events st @ WriteFile path # map WriteFile paths"
      "\<And>p. files st' p = (if p \<in> set paths
                then map_option (rewritten_lines expected) (files ?st1 p) else files ?st1 p)"
      by simp_all
    have w: "(if added then path # paths else paths_written expected st (path # paths))
        = path # paths"
      using True by (auto simp add: paths_written_def fnc)
    have "files st' p = (if p \<in> set (path # paths)
            then map_option (rewritten_lines expected) (files st p) else files st p)" for p
      using ih(4) [of p] lines by (auto simp: rewritten_lines_idem)
    with ih(1-3) True show ?thesis
      unfolding w by (auto simp add: fnc)
  next
    case False
    with Cons.prems lines loop
    have "configure_paths_loop paths expected False st = Inr (added', st')"
      by simp
    from Cons.IH [OF this] False show ?thesis
      by (simp add: paths_written_def fnc)
  qed
qed

lemma paths_written_empty:
  "paths_written expected st paths = [] \<longleftrightarrow> \<not> list_ex (file_needs_change expected st) paths"
  by (auto simp: paths_written_def list_ex_iff dropWhile_eq_Nil_conv)

lemma configure_sync_linguas_changed_iff:
  assumes "configure_sync_linguas language_codes paths st = Inr (added, st')"
  shows "added \<longleftrightarrow> files st' \<noteq> files st"
proof -
  let ?e = "expected_line language_codes"
  let ?w = "paths_written ?e st paths"
  from assms have run: "configure_paths_loop paths ?e False st = Inr (added, st')"
    by (simp add: configure_sync_linguas_def)
  from configure_paths_loop_result [OF run]
  have added: "added = list_ex (file_needs_change ?e st) paths"
    and fs: "\<And>p. files st' p = (if p \<in> set ?w
               then map_option (rewritten_lines ?e) (files st p) else files st p)"
    by simp_all
  show ?thesis
  proof (cases "?w = []")
    case True
    with fs have "files st' = files st" by (intro ext) simp
    moreover from True added have "\<not> added" by (simp add: paths_written_empty)
    ultimately show ?thesis by simp
  next
    case False
    then have "hd ?w \<in> set ?w" by simp
    moreover from False have "file_needs_change ?e st (hd ?w)"
      unfolding paths_written_def by (metis (mono_tags, lifting) hd_dropWhile)
    then obtain lines where "files st (hd ?w) = Some lines" "needs_change ?e lines"
      by (auto simp: file_needs_change_def split: option.splits)
    ultimately have "files st' (hd ?w) \<noteq> files st (hd ?w)"
      using fs [of "hd ?w"] by (simp add: rewritten_lines_differ)
    then have "files st' \<noteq> files st" by metis
    moreover from False added have added by (simp add: paths_written_empty)
    ultimately show ?thesis by simp
  qed
qed

lemmas configure_eval = configure_sync_linguas_def expected_line_def all_linguas_prefix_def
  strip_def isspace_def emit_def Let_def

lemma example_codes:
  "distinct [''fr'', ''de'']" "\<forall>c \<in> set [''fr'', ''de'']. language_code c"
  by (simp_all add: language_code_def isspace_def)

lemma example_configure_run:
  "map_sum id (\<lambda>r. (fst r, events (snd r)))
     (configure_sync_linguas [''de'', ''fr''] [''/repo/configure'', ''/repo/configure.ac'']
        tree_with_configure)
   = Inr (True, [WriteFile ''/repo/configure'', WriteFile ''/repo/configure.ac''])"
  by (simp add: tree_with_configure_def configure_eval)

section \<open>Facts about runs that pass the change gate\<close>

lemma resolve_loop_all_resolved:
  assumes "\<forall>p \<in> set ps. resolve p = None"
  shows "\<exists>st1. resolve_loop resolve ps st = (None, st1)
           \<and> files st1 = files st \<and> alerts st1 = alerts st
           \<and> events st1 = events st @ map ResolveSymlinks ps"
  using assms
proof (induction ps arbitrary: st)
  case Nil
  then show ?case by simp
next
  case (Cons p ps)
  then have "resolve p = None" and rest: "\<forall>q \<in> set ps. resolve q = None" by simp_all
  from Cons.IH [OF rest, of "emit (ResolveSymlinks p) st"] \<open>resolve p = None\<close>
  show ?case by auto
qed

lemma post_update_gate_open:
  assumes "get_files_from env = Some files_from" "files_from \<noteq> []"
    and "files st files_from = Some manifest"
    and "\<not> xgettext_skips env (repo_files_of env manifest)"
    and "\<forall>p \<in> set (repo_files_of env manifest). resolve_symlinks env p = None"
  shows "\<exists>st'. post_update env st = Inr st'
           \<and> ExecuteProcess (xgettext_cmd env) \<in> set (events st')"
proof -
  from resolve_loop_all_resolved [OF assms(5), of st] obtain st1 where
    r: "resolve_loop (resolve_symlinks env) (repo_files_of env manifest) st = (None, st1)"
    by blast
  with assms(1-4) have "post_update env st = Inr (run_xgettext env st1)"
    by (simp add: post_update_def)
  moreover from run_xgettext_events [of env st1]
  have "ExecuteProcess (xgettext_cmd env) \<in> set (events (run_xgettext env st1))"
    by auto
  ultimately show ?thesis by blast
qed

lemma merges_attempted_log_info:
  "merges_attempted (log_info msg st) = merges_attempted st"
  by (simp add: merges_attempted_def map_filter_append)

lemma update_translations_gate_open:
  assumes "\<not> msgmerge_skips env"
    and "new_base_filename env = Some template" and "template \<noteq> []"
    and "path_exists st template"
    and "\<forall>t \<in> set (translation_set env).
           \<not> skipped_translation st t \<longrightarrow> \<not> merge_raises_other env template t"
  shows "\<exists>st'. update_translations env st = Inr st'
           \<and> merges_attempted st' = merges_attempted st
                @ map (\<lambda>t. the (get_filename t))
                    (filter (\<lambda>t. \<not> skipped_translation st t) (translation_set env))"
proof -
  from update_translations_loop_result [OF assms(5)] obtain st1 where
    "update_translations_loop env template (translation_set env) st = Inr st1"
    "merges_attempted st1 = merges_attempted st
                @ map (\<lambda>t. the (get_filename t))
                    (filter (\<lambda>t. \<not> skipped_translation st t) (translation_set env))"
    by blast
  with assms(1-4) show ?thesis
    by (simp add: update_translations_def merges_attempted_def map_filter_append)
qed

section \<open>Claims\<close>

text \<open>
  C1, as stated: for every document and every desired code set, \<open>update_linguas\<close> and the
  configure add-on's \<open>sync_linguas\<close> return \<open>changed = true\<close> if and only if the resulting
  document differs from the input. For \<open>update_linguas\<close> this fails on a code that a line
  cannot name: with the desired code \<open>de#1\<close>, the line \<open>de#1\<close> is read as the code \<open>de\<close>,
  removed, and added again at the end, so the document is the same and
  \<open>changed = true\<close>.
\<close>

theorem C1_hash_code_counterexample:
  "update_linguas [''de#1\<newline>''] [''de#1''] = (True, [''de#1\<newline>''])"
  by (simp add: ul_eval del_at_def)

text \<open>
  C1, amended: \<open>update_linguas\<close> never returns \<open>changed = false\<close> with a document that
  differs from the input; and when every desired code is a language code (not empty,
  without \<open>#\<close> and without white space), it returns \<open>changed = true\<close> if and only if the
  resulting document differs from the input. The configure add-on's \<open>sync_linguas\<close>
  returns \<open>true\<close> if and only if the files after the run differ from the files before.
\<close>

theorem C1_changed_iff_differs:
  "(\<not> fst (update_linguas lines codes) \<longrightarrow> snd (update_linguas lines codes) = lines)
   \<and> (distinct codes \<and> (\<forall>c \<in> set codes. language_code c) \<longrightarrow>
        (fst (update_linguas lines codes) \<longleftrightarrow> snd (update_linguas lines codes) \<noteq> lines))
   \<and> (\<forall>added st'. configure_sync_linguas language_codes paths st = Inr (added, st') \<longrightarrow>
        (added \<longleftrightarrow> files st' \<noteq> files st))"
  using update_linguas_unchanged update_linguas_changed_iff configure_sync_linguas_changed_iff
  by blast

theorem C1_changed_iff_differs_witness:
  "fst (update_linguas linguas_document [''fr'', ''de''])
   \<and> snd (update_linguas linguas_document [''fr'', ''de'']) \<noteq> linguas_document
   \<and> \<not> fst (update_linguas [''fr\<newline>'', ''de\<newline>''] [''fr'', ''de''])
   \<and> snd (update_linguas [''fr\<newline>'', ''de\<newline>''] [''fr'', ''de'']) = [''fr\<newline>'', ''de\<newline>'']
   \<and> (\<exists>st'. configure_sync_linguas [''de'', ''fr''] [''/repo/configure'', ''/repo/configure.ac'']
               tree_with_configure = Inr (True, st')
             \<and> files st' \<noteq> files tree_with_configure)"
proof -
  have a: "fst (update_linguas linguas_document [''fr'', ''de''])"
    by (simp add: linguas_document_def ul_eval del_at_def)
  have b: "\<not> fst (update_linguas [''fr\<newline>'', ''de\<newline>''] [''fr'', ''de''])"
    by (simp add: ul_eval del_at_def)
  obtain st' where c: "configure_sync_linguas [''de'', ''fr'']
      [''/repo/configure'', ''/repo/configure.ac''] tree_with_configure = Inr (True, st')"
    using example_configure_run
    by (cases "configure_sync_linguas [''de'', ''fr'']
      [''/repo/configure'', ''/repo/configure.ac''] tree_with_configure") auto
  from a b c example_codes
    C1_changed_iff_differs [of linguas_document "[''fr'', ''de'']" "[''de'', ''fr'']"
       "[''/repo/configure'', ''/repo/configure.ac'']" tree_with_configure]
    C1_changed_iff_differs [of "[''fr\<newline>'', ''de\<newline>'']" "[''fr'', ''de'']" "[]" "[]" tree_with_configure]
  show ?thesis by blast
qed

text \<open>
  C2, as stated: on the one-line document \<open>["en fr de\n"]\<close>, desired codes
  \<open>{fr, de, es}\<close> give \<open>["de es fr\n"]\<close> with \<open>changed = true\<close>, and desired codes
  \<open>{de, en, fr}\<close> give \<open>changed = false\<close>. The second half fails: the line is compared
  with the codes joined in sorted order, and \<open>"en fr de"\<close> is not \<open>"de en fr"\<close>, so the
  line is rewritten and \<open>changed = true\<close>.
\<close>

theorem C2_same_codes_unsorted_counterexample:
  "update_linguas [''en fr de\<newline>''] [''de'', ''en'', ''fr''] = (True, [''de en fr\<newline>''])"
  by (simp add: ul_eval)

text \<open>
  C2, amended: whatever the iteration order of the code set, desired codes
  \<open>{fr, de, es}\<close> turn \<open>["en fr de\n"]\<close> into \<open>["de es fr\n"]\<close> with \<open>changed = true\<close>;
  desired codes \<open>{de, en, fr}\<close> turn it into \<open>["de en fr\n"]\<close>, again with
  \<open>changed = true\<close>; and \<open>changed = false\<close> is returned for \<open>{de, en, fr}\<close> when the line
  already lists them in sorted order, \<open>["de en fr\n"]\<close>.
\<close>

theorem C2_legacy_single_line:
  assumes "distinct codes"
  shows "(set codes = {''fr'', ''de'', ''es''} \<longrightarrow>
            update_linguas [''en fr de\<newline>''] codes = (True, [''de es fr\<newline>'']))
       \<and> (set codes = {''de'', ''en'', ''fr''} \<longrightarrow>
            update_linguas [''en fr de\<newline>''] codes = (True, [''de en fr\<newline>''])
          \<and> update_linguas [''de en fr\<newline>''] codes = (False, [''de en fr\<newline>'']))"
proof (intro conjI impI)
  assume "set codes = {''fr'', ''de'', ''es''}"
  then have "sort codes = [''de'', ''es'', ''fr'']"
    using assms by (simp add: sort_of_set)
  then show "update_linguas [''en fr de\<newline>''] codes = (True, [''de es fr\<newline>''])"
    by (simp add: ul_eval)
next
  assume "set codes = {''de'', ''en'', ''fr''}"
  then have "sort codes = [''de'', ''en'', ''fr'']"
    using assms by (simp add: sort_of_set)
  then show "update_linguas [''en fr de\<newline>''] codes = (True, [''de en fr\<newline>''])"
    by (simp add: ul_eval)
next
  assume "set codes = {''de'', ''en'', ''fr''}"
  then have "sort codes = [''de'', ''en'', ''fr'']"
    using assms by (simp add: sort_of_set)
  then show "update_linguas [''de en fr\<newline>''] codes = (False, [''de en fr\<newline>''])"
    by (simp add: ul_eval)
qed

theorem C2_legacy_single_line_witness:
  "update_linguas [''en fr de\<newline>''] [''es'', ''fr'', ''de''] = (True, [''de es fr\<newline>''])
   \<and> update_linguas [''en fr de\<newline>''] [''fr'', ''en'', ''de''] = (True, [''de en fr\<newline>''])
   \<and> update_linguas [''de en fr\<newline>''] [''fr'', ''en'', ''de''] = (False, [''de en fr\<newline>''])"
  using C2_legacy_single_line [of "[''es'', ''fr'', ''de'']"]
        C2_legacy_single_line [of "[''fr'', ''en'', ''de'']"]
  by auto

text \<open>
  C3, as stated: \<open>post_update\<close> consults the change gate first and looks for the manifest
  only when the gate lets the run proceed, so that no alert is produced when the gate
  would skip, even with \<open>POTFILES.in\<close> absent. The code looks for the manifest first,
  because the gate's dependency set is read from it: with a previous revision, no
  stored alert, no changed file at all and no \<open>POTFILES.in\<close>, the run records and triggers
  the alert.
\<close>

theorem C3_alert_despite_gate_counterexample:
  "truthy (previous_head example_xgettext) \<and> \<not> alert_exists example_xgettext
   \<and> changed_files example_xgettext = []
   \<and> get_files_from example_xgettext = Some ''/repo/po/POTFILES.in''
   \<and> files tree_without_manifest ''/repo/po/POTFILES.in'' = None
   \<and> post_update example_xgettext tree_without_manifest =
       Inr (tree_without_manifest
             \<lparr>alerts := [\<lparr>alert_addon = ''weblate.gettext.xgettext'', alert_command = ''xgettext'',
                          alert_output = Some ''/repo/po/app.pot'',
                          alert_error = ''Input list (POTFILES.in) file not found''\<rparr>],
              events := [TriggerAlerts
                          [\<lparr>alert_addon = ''weblate.gettext.xgettext'',
                            alert_command = ''xgettext'',
                            alert_output = Some ''/repo/po/app.pot'',
                            alert_error = ''Input list (POTFILES.in) file not found''\<rparr>],
                         LogInfo ''%s addon skipped, input file list not found'']\<rparr>)"
  by (simp add: example_xgettext_def tree_without_manifest_def path_eval post_update_def
      manifest_missing_def xgettext_alert_def xgettext_name_def log_info_def emit_def
      trigger_alerts_def append_alert_def)

text \<open>
  C3, amended: \<open>post_update\<close> looks for the manifest first. When \<open>POTFILES.in\<close> is missing
  (no path for it, an empty path, or no file there), it appends the alert, triggers the
  alerts and returns, whatever the gate would say. Only when the manifest exists is the
  gate consulted, on the dependency set read from the manifest; the run then ends as
  skipped exactly when the gate says so, and a skipped run adds one log line and leaves
  the alerts and the working tree as they were.
\<close>

theorem C3_manifest_check_precedes_gate:
  "((get_files_from env = None \<or> get_files_from env = Some []
       \<or> (\<exists>files_from. get_files_from env = Some files_from \<and> files st files_from = None))
      \<longrightarrow> post_update env st = Inr (manifest_missing env st)
          \<and> alerts (manifest_missing env st)
              = alerts st @ [xgettext_alert env ''Input list (POTFILES.in) file not found'']
          \<and> TriggerAlerts (alerts (manifest_missing env st))
              \<in> set (events (manifest_missing env st)))
   \<and> (\<forall>files_from manifest.
         get_files_from env = Some files_from \<and> files_from \<noteq> []
         \<and> files st files_from = Some manifest
         \<longrightarrow> (xgettext_skips env (repo_files_of env manifest) \<longleftrightarrow>
                post_update env st
                  = Inr (log_info ''%s addon skipped, input files not updated in %s..%s'' st))
             \<and> alerts (log_info ''%s addon skipped, input files not updated in %s..%s'' st)
                 = alerts st
             \<and> files (log_info ''%s addon skipped, input files not updated in %s..%s'' st)
                 = files st
             \<and> events (log_info ''%s addon skipped, input files not updated in %s..%s'' st)
                 = events st @ [LogInfo ''%s addon skipped, input files not updated in %s..%s''])"
proof (intro conjI impI allI)
  assume "get_files_from env = None \<or> get_files_from env = Some []
       \<or> (\<exists>files_from. get_files_from env = Some files_from \<and> files st files_from = None)"
  then show "post_update env st = Inr (manifest_missing env st)"
    by (auto simp: post_update_def)
next
  fix files_from manifest
  assume "get_files_from env = Some files_from \<and> files_from \<noteq> []
         \<and> files st files_from = Some manifest"
  then show "xgettext_skips env (repo_files_of env manifest) \<longleftrightarrow>
                post_update env st
                  = Inr (log_info ''%s addon skipped, input files not updated in %s..%s'' st)"
    using post_update_skip_iff [of env files_from st manifest] by simp
qed simp_all

theorem C3_manifest_check_precedes_gate_witness:
  "post_update example_xgettext tree_without_manifest
     = Inr (manifest_missing example_xgettext tree_without_manifest)
   \<and> post_update example_xgettext tree_with_manifest
     = Inr (log_info ''%s addon skipped, input files not updated in %s..%s'' tree_with_manifest)"
proof
  have "get_files_from example_xgettext = Some ''/repo/po/POTFILES.in''"
    by (simp add: example_xgettext_def path_eval)
  moreover have "files tree_without_manifest ''/repo/po/POTFILES.in'' = None"
    by (simp add: tree_without_manifest_def)
  ultimately show "post_update example_xgettext tree_without_manifest
     = Inr (manifest_missing example_xgettext tree_without_manifest)"
    using C3_manifest_check_precedes_gate [of example_xgettext tree_without_manifest] by blast
next
  have ff: "get_files_from example_xgettext = Some ''/repo/po/POTFILES.in''"
    by (simp add: example_xgettext_def path_eval)
  have m: "files tree_with_manifest ''/repo/po/POTFILES.in''
      = Some [''# sources\<newline>'', ''src/main.c\<newline>'']"
    by (simp add: tree_with_manifest_def)
  have "xgettext_skips example_xgettext
          (repo_files_of example_xgettext [''# sources\<newline>'', ''src/main.c\<newline>''])"
    by (simp add: xgettext_skips_def example_xgettext_def)
  with ff m show "post_update example_xgettext tree_with_manifest
     = Inr (log_info ''%s addon skipped, input files not updated in %s..%s'' tree_with_manifest)"
    using C3_manifest_check_precedes_gate [of example_xgettext tree_with_manifest] by blast
qed

text \<open>
  C4: each candidate configure file is reconciled independently, and a file in which no
  \<open>ALL_LINGUAS\<close> line needed changing is never written back, even when an earlier
  candidate was changed. The code does not keep to this. The flag \<open>added\<close> guards the
  write of each file, but it is set once before the loop over the paths and never
  reset: with \<open>configure\<close> out of date and \<open>configure.ac\<close> up to date, no line of
  \<open>configure.ac\<close> needs changing, and the run writes both files.
\<close>

theorem C4_unchanged_file_written:
  "\<not> needs_change (expected_line [''de'', ''fr''])
       [all_linguas_prefix @ ''de fr'' @ [CHR 0x22, CHR 0x0A], ''AC_OUTPUT\<newline>'']
   \<and> files tree_with_configure ''/repo/configure.ac''
       = Some [all_linguas_prefix @ ''de fr'' @ [CHR 0x22, CHR 0x0A], ''AC_OUTPUT\<newline>'']
   \<and> map_sum id (\<lambda>r. files_written (snd r))
       (configure_sync_linguas [''de'', ''fr''] [''/repo/configure'', ''/repo/configure.ac'']
          tree_with_configure)
     = Inr [''/repo/configure'', ''/repo/configure.ac'']"
  by (simp add: tree_with_configure_def configure_eval needs_change_def is_assignment_def
      files_written_def)




text \<open>
  C6: \<open>pot_files_same\<close> compares the two files line by line up to the length of the longer
  one, a line missing from the shorter file counting as \<open>None\<close>. The files are the same
  exactly when at every index the two lines are equal, or both are present and each
  starts with \<open>"POT-Creation-Date: \<close> and ends with \<open>\n"\<close> and a newline. Every other
  mismatch, a line missing on one side included, makes them materially different.
\<close>

theorem C6_pot_files_same:
  "pot_files_same file_a file_b \<longleftrightarrow>
     (\<forall>i < max (length file_a) (length file_b).
        line_at file_a i = line_at file_b i
        \<or> (i < length file_a \<and> i < length file_b
           \<and> prefix pot_creation_date_start (file_a ! i)
           \<and> suffix pot_creation_date_end (file_a ! i)
           \<and> prefix pot_creation_date_start (file_b ! i)
           \<and> suffix pot_creation_date_end (file_b ! i)))"
proof -
  have pcd: "is_pot_creation_date (line_at xs i) \<longleftrightarrow>
        i < length xs \<and> prefix pot_creation_date_start (xs ! i)
        \<and> suffix pot_creation_date_end (xs ! i)" for xs i
    by (simp add: line_at_def)
  have "pot_files_same file_a file_b \<longleftrightarrow>
      (\<forall>i < length (zip_longest file_a file_b).
         fst (zip_longest file_a file_b ! i) = snd (zip_longest file_a file_b ! i)
         \<or> (is_pot_creation_date (fst (zip_longest file_a file_b ! i))
            \<and> is_pot_creation_date (snd (zip_longest file_a file_b ! i))))"
    unfolding pot_files_same_def pot_files_same_loop_iff by (simp add: all_set_conv_all_nth)
  also have "\<dots> \<longleftrightarrow>
      (\<forall>i < max (length file_a) (length file_b).
         line_at file_a i = line_at file_b i
         \<or> (is_pot_creation_date (line_at file_a i) \<and> is_pot_creation_date (line_at file_b i)))"
    by (simp add: length_zip_longest nth_zip_longest)
  finally show ?thesis
    unfolding pcd by blast
qed

theorem C6_pot_files_same_witness: "pot_files_same pot_new pot_old \<and> \<not> pot_files_same pot_new (pot_old @ [''x''])"
proof
  show "pot_files_same pot_new pot_old"
    by (simp add: pot_eval)
  show "\<not> pot_files_same pot_new (pot_old @ [''x''])"
  proof
    assume same: "pot_files_same pot_new (pot_old @ [''x''])"
    note at_3 = C6_pot_files_same [THEN iffD1, OF same, rule_format, of 3]
    then show False
      by (simp add: pot_new_def pot_old_def line_at_def)
  qed
qed

text \<open>
  C7: in a run of \<open>post_update\<close> whose temporary file is a new file (its path is not in
  the tree and is not the template's path): the temporary file is created in the
  directory of the final template; the final template is replaced exactly when xgettext
  was run, the add-on held no alert before and the invocation added none, and the final
  path either does not exist or \<open>pot_files_same\<close> reports a difference; a replacement puts the tool's output at the final path and is followed by
  the commit; and without a replacement (tool failure, no material difference, or a run
  that ended earlier) the working tree is as it was, the temporary file gone, and
  nothing is committed.
\<close>

theorem C7_promote_only_on_difference:
  assumes run: "post_update env st = Inr st'"
    and start: "events st = []"
    and fresh: "files st (tmp_path env) = None" "tmp_path env \<noteq> output_path env"
  shows "(\<forall>dir tmp. CreateTemp dir tmp \<in> set (events st') \<longrightarrow>
            dir = dirname (output_path env) \<and> tmp = tmp_path env)
    \<and> (list_ex is_replace (events st') \<longleftrightarrow>
         ExecuteProcess (xgettext_cmd env) \<in> set (events st')
         \<and> alerts st = [] \<and> fst (execute_process env (xgettext_cmd env)) = []
         \<and> (case files st (output_path env) of
              None \<Rightarrow> True
            | Some old \<Rightarrow> \<not> pot_files_same (snd (execute_process env (xgettext_cmd env))) old))
    \<and> (list_ex is_replace (events st') \<longrightarrow>
         Replace (tmp_path env) (output_path env) \<in> set (events st')
         \<and> files st' = (files st)(output_path env \<mapsto> snd (execute_process env (xgettext_cmd env)))
         \<and> last (events st') = CommitAndPush [self_new_base env] (skip_push env))
    \<and> (\<not> list_ex is_replace (events st') \<longrightarrow>
         files st' = files st \<and> \<not> list_ex is_commit (events st'))"
  using run
proof (cases rule: post_update_cases)
  case missing
  with start show ?thesis by simp
next
  case skipped
  with start show ?thesis by simp
next
  case (invalid st1 ex qs)
  with start show ?thesis by simp
next
  case (ran st1 qs)
  let ?tool = "execute_process env (xgettext_cmd env)"
  have drop_tmp: "(files st1)(tmp_path env := None) = files st"
    using fresh ran(2) by (intro ext) simp
  have keep_out: "((files st)(output_path env \<mapsto> new))(tmp_path env := None)
      = (files st)(output_path env \<mapsto> new)" for new
    using fresh by (intro ext) simp
  show ?thesis
  proof (cases "alerts st @ fst ?tool = []")
    case False
    then have "alerts st1 @ fst ?tool \<noteq> []" using ran(3) by simp
    from run_xgettext_failed [OF this] ran start False drop_tmp
    show ?thesis by auto
  next
    case True
    then have ok: "fst ?tool = []" and a: "alerts st1 = []" using ran(3) by simp_all
    show ?thesis
    proof (cases "files st (output_path env)")
      case None
      then have "case files st1 (output_path env) of None \<Rightarrow> True
         | Some old \<Rightarrow> \<not> pot_files_same (snd ?tool) old"
        using ran(2) by simp
      from run_xgettext_promoted [OF a ok fresh(2) this] ran start None fresh ok a
      show ?thesis by (simp add: keep_out)
    next
      case (Some old)
      show ?thesis
      proof (cases "pot_files_same (snd ?tool) old")
        case True
        from Some ran(2) have "files st1 (output_path env) = Some old" by simp
        from run_xgettext_unchanged [OF a ok fresh(2) this True] ran start Some True drop_tmp ok a
        show ?thesis by simp
      next
        case False
        with Some have "case files st1 (output_path env) of None \<Rightarrow> True
           | Some old \<Rightarrow> \<not> pot_files_same (snd ?tool) old"
          using ran(2) by simp
        from run_xgettext_promoted [OF a ok fresh(2) this] ran start Some False fresh ok a
        show ?thesis by (simp add: keep_out)
      qed
    qed
  qed
qed

theorem C7_promote_only_on_difference_witness:
  "(\<exists>st'. post_update (example_xgettext\<lparr>alert_exists := True\<rparr>) tree_with_manifest = Inr st'
       \<and> \<not> list_ex is_replace (events st') \<and> \<not> list_ex is_commit (events st')
       \<and> files st' = files tree_with_manifest)
   \<and> (\<exists>st'. post_update
              (example_xgettext\<lparr>alert_exists := True, execute_process := (\<lambda>cmd. ([], pot_more))\<rparr>)
              tree_with_manifest = Inr st'
       \<and> list_ex is_replace (events st')
       \<and> files st' = (files tree_with_manifest)(''/repo/po/app.pot'' \<mapsto> pot_more))"
proof
  let ?env = "example_xgettext\<lparr>alert_exists := True\<rparr>"
  obtain st' where run: "post_update ?env tree_with_manifest = Inr st'"
    using example_run_unchanged by (cases "post_update ?env tree_with_manifest") auto
  have start: "events tree_with_manifest = []" and idle: "alerts tree_with_manifest = []"
    by (simp_all add: tree_with_manifest_def)
  have fresh: "files tree_with_manifest (tmp_path ?env) = None"
    "tmp_path ?env \<noteq> output_path ?env"
    by (simp_all add: tree_with_manifest_def example_xgettext_def path_eval)
  have old: "files tree_with_manifest (output_path ?env) = Some pot_old"
    by (simp add: tree_with_manifest_def example_xgettext_def)
  have tool: "execute_process ?env (xgettext_cmd ?env) = ([], pot_new)"
    by (simp add: example_xgettext_def)
  have same: "pot_files_same pot_new pot_old"
    by (simp add: pot_eval)
  from C7_promote_only_on_difference [OF run start fresh] old tool same idle
  have "\<not> list_ex is_replace (events st') \<and> \<not> list_ex is_commit (events st')
       \<and> files st' = files tree_with_manifest"
    by simp
  with run show "\<exists>st'. post_update ?env tree_with_manifest = Inr st'
       \<and> \<not> list_ex is_replace (events st') \<and> \<not> list_ex is_commit (events st')
       \<and> files st' = files tree_with_manifest"
    by blast
next
  let ?env = "example_xgettext\<lparr>alert_exists := True, execute_process := (\<lambda>cmd. ([], pot_more))\<rparr>"
  obtain st' where run: "post_update ?env tree_with_manifest = Inr st'"
    using example_run_promoted by (cases "post_update ?env tree_with_manifest") auto
  with example_run_promoted have ran: "ExecuteProcess (xgettext_cmd ?env) \<in> set (events st')"
    by (simp add: example_xgettext_def path_eval)
  have start: "events tree_with_manifest = []" and idle: "alerts tree_with_manifest = []"
    by (simp_all add: tree_with_manifest_def)
  have fresh: "files tree_with_manifest (tmp_path ?env) = None"
    "tmp_path ?env \<noteq> output_path ?env"
    by (simp_all add: tree_with_manifest_def example_xgettext_def path_eval)
  have old: "files tree_with_manifest (output_path ?env) = Some pot_old"
    by (simp add: tree_with_manifest_def example_xgettext_def)
  have tool: "execute_process ?env (xgettext_cmd ?env) = ([], pot_more)"
    by (simp add: example_xgettext_def)
  have differs: "\<not> pot_files_same pot_more pot_old"
    by (simp add: pot_eval pot_more_def)
  have out: "output_path ?env = ''/repo/po/app.pot''"
    by (simp add: example_xgettext_def)
  from C7_promote_only_on_difference [OF run start fresh] old tool differs ran out idle
  have "list_ex is_replace (events st')
       \<and> files st' = (files tree_with_manifest)(''/repo/po/app.pot'' \<mapsto> pot_more)"
    by simp
  with run show "\<exists>st'. post_update ?env tree_with_manifest = Inr st'
       \<and> list_ex is_replace (events st')
       \<and> files st' = (files tree_with_manifest)(''/repo/po/app.pot'' \<mapsto> pot_more)"
    by blast
qed

text \<open>
  C8: the change gate lets the run proceed whenever there is no previous revision or an
  alert of the add-on's kind is stored; otherwise it lets it proceed exactly when the
  dependency set and the set of changed files have a file in common (for msgmerge:
  when the template path is among the changed files). With dependency set
  \<open>{"template.pot"}\<close>, a previous revision and no stored alert, changed files
  \<open>{"readme.md"}\<close> skip the run and changed files \<open>{"template.pot"}\<close> let it proceed.
  The orchestrators follow the gate. \<open>update_translations\<close> ends as skipped exactly when
  its gate says so; with the template in place and no merge raising anything but an
  \<open>UpdateError\<close> it attempts no merge when the gate skips and the merge of every
  translation that the \<open>continue\<close> does not skip when the gate is open; and with the gate
  open and the template missing it records the alert. \<open>post_update\<close>, once the manifest is
  there, ends as skipped exactly when its gate says so, and when the files of the
  manifest resolve it runs xgettext exactly when the gate is open.
\<close>

theorem C8_change_gate:
  "(\<not> xgettext_skips env deps \<longleftrightarrow>
      \<not> truthy (previous_head env) \<or> alert_exists env
      \<or> set deps \<inter> set (changed_files env) \<noteq> {})
   \<and> (\<not> msgmerge_skips env \<longleftrightarrow>
      \<not> truthy (previous_head env) \<or> alert_exists env
      \<or> component_new_base env \<in> set (changed_files env))
   \<and> (truthy (previous_head env) \<and> \<not> alert_exists env \<longrightarrow>
        (changed_files env = [''readme.md''] \<longrightarrow> xgettext_skips env [''template.pot''])
        \<and> (changed_files env = [''template.pot''] \<longrightarrow> \<not> xgettext_skips env [''template.pot''])
        \<and> (component_new_base env = ''template.pot'' \<longrightarrow>
             (changed_files env = [''readme.md''] \<longrightarrow> msgmerge_skips env)
             \<and> (changed_files env = [''template.pot''] \<longrightarrow> \<not> msgmerge_skips env)))
   \<and> (update_translations menv st
         = Inr (log_info ''%s addon skipped, new base was not updated in %s..%s'' st)
       \<longleftrightarrow> msgmerge_skips menv)
   \<and> (\<forall>files_from manifest.
         get_files_from xenv = Some files_from \<and> files_from \<noteq> []
         \<and> files st files_from = Some manifest \<longrightarrow>
         (post_update xenv st
            = Inr (log_info ''%s addon skipped, input files not updated in %s..%s'' st)
          \<longleftrightarrow> xgettext_skips xenv (repo_files_of xenv manifest)))
   \<and> (\<forall>template.
         new_base_filename menv = Some template \<and> template \<noteq> []
         \<and> path_exists st template
         \<and> (\<forall>t \<in> set (translation_set menv).
               \<not> skipped_translation st t \<longrightarrow> \<not> merge_raises_other menv template t) \<longrightarrow>
         (\<exists>st'. update_translations menv st = Inr st'
            \<and> merges_attempted st' = merges_attempted st
                 @ (if msgmerge_skips menv then []
                    else map (\<lambda>t. the (get_filename t))
                           (filter (\<lambda>t. \<not> skipped_translation st t) (translation_set menv)))))
   \<and> (\<not> msgmerge_skips menv
        \<and> (new_base_filename menv = None \<or> new_base_filename menv = Some []
            \<or> (\<exists>template. new_base_filename menv = Some template
                  \<and> \<not> path_exists st template)) \<longrightarrow>
        update_translations menv st = Inr (template_missing menv st))
   \<and> (\<forall>files_from manifest.
         get_files_from xenv = Some files_from \<and> files_from \<noteq> []
         \<and> files st files_from = Some manifest
         \<and> (\<forall>p \<in> set (repo_files_of xenv manifest). resolve_symlinks xenv p = None)
         \<and> ExecuteProcess (xgettext_cmd xenv) \<notin> set (events st) \<longrightarrow>
         (\<exists>st'. post_update xenv st = Inr st'
            \<and> (ExecuteProcess (xgettext_cmd xenv) \<in> set (events st')
                 \<longleftrightarrow> \<not> xgettext_skips xenv (repo_files_of xenv manifest))))"
proof (intro conjI allI impI)
  show "update_translations menv st
         = Inr (log_info ''%s addon skipped, new base was not updated in %s..%s'' st)
       \<longleftrightarrow> msgmerge_skips menv"
    by (rule update_translations_skip_iff)
next
  fix files_from manifest
  assume "get_files_from xenv = Some files_from \<and> files_from \<noteq> []
         \<and> files st files_from = Some manifest"
  then show "post_update xenv st
            = Inr (log_info ''%s addon skipped, input files not updated in %s..%s'' st)
          \<longleftrightarrow> xgettext_skips xenv (repo_files_of xenv manifest)"
    using post_update_skip_iff [of xenv files_from st manifest] by simp
next
  fix template
  assume a: "new_base_filename menv = Some template \<and> template \<noteq> []
         \<and> path_exists st template
         \<and> (\<forall>t \<in> set (translation_set menv).
               \<not> skipped_translation st t \<longrightarrow> \<not> merge_raises_other menv template t)"
  show "\<exists>st'. update_translations menv st = Inr st'
            \<and> merges_attempted st' = merges_attempted st
                 @ (if msgmerge_skips menv then []
                    else map (\<lambda>t. the (get_filename t))
                           (filter (\<lambda>t. \<not> skipped_translation st t) (translation_set menv)))"
  proof (cases "msgmerge_skips menv")
    case True
    then show ?thesis by (simp add: update_translations_def merges_attempted_log_info)
  next
    case False
    with a update_translations_gate_open [of menv template st] show ?thesis by simp
  qed
next
  assume "\<not> msgmerge_skips menv
        \<and> (new_base_filename menv = None \<or> new_base_filename menv = Some []
            \<or> (\<exists>template. new_base_filename menv = Some template
                  \<and> \<not> path_exists st template))"
  then show "update_translations menv st = Inr (template_missing menv st)"
    by (auto simp: update_translations_def)
next
  fix files_from manifest
  assume a: "get_files_from xenv = Some files_from \<and> files_from \<noteq> []
         \<and> files st files_from = Some manifest
         \<and> (\<forall>p \<in> set (repo_files_of xenv manifest). resolve_symlinks xenv p = None)
         \<and> ExecuteProcess (xgettext_cmd xenv) \<notin> set (events st)"
  show "\<exists>st'. post_update xenv st = Inr st'
            \<and> (ExecuteProcess (xgettext_cmd xenv) \<in> set (events st')
                 \<longleftrightarrow> \<not> xgettext_skips xenv (repo_files_of xenv manifest))"
  proof (cases "xgettext_skips xenv (repo_files_of xenv manifest)")
    case True
    with a have "post_update xenv st
        = Inr (log_info ''%s addon skipped, input files not updated in %s..%s'' st)"
      by (simp add: post_update_def)
    with a True show ?thesis by simp
  next
    case False
    with a post_update_gate_open [of xenv files_from st manifest] show ?thesis by simp
  qed
qed (auto simp: xgettext_skips_def msgmerge_skips_def)

theorem C8_change_gate_witness:
  "xgettext_skips example_component [''template.pot'']
   \<and> \<not> xgettext_skips (example_component\<lparr>changed_files := [''template.pot'']\<rparr>) [''template.pot'']
   \<and> msgmerge_skips example_component
   \<and> \<not> msgmerge_skips (example_component\<lparr>changed_files := [''template.pot'']\<rparr>)
   \<and> \<not> msgmerge_skips (example_component\<lparr>alert_exists := True\<rparr>)
   \<and> \<not> xgettext_skips (example_component\<lparr>previous_head := None\<rparr>) [''template.pot'']
   \<and> (\<exists>st'. update_translations
               (example_msgmerge\<lparr>previous_head := Some ''4f2a91c'',
                  changed_files := [''readme.md''], component_new_base := ''template.pot''\<rparr>)
               tree_with_translations = Inr st'
          \<and> merges_attempted st' = [])
   \<and> (\<exists>st'. update_translations
               (example_msgmerge\<lparr>previous_head := Some ''4f2a91c'',
                  changed_files := [''template.pot''], component_new_base := ''template.pot''\<rparr>)
               tree_with_translations = Inr st'
          \<and> merges_attempted st' = [''/repo/po/cs.po'', ''/repo/po/de.po'', ''/repo/po/fr.po''])
   \<and> (\<exists>st'. post_update (example_xgettext\<lparr>changed_files := [''readme.md'']\<rparr>)
               (tree_with_manifest\<lparr>files := (files tree_with_manifest)
                   (''/repo/po/POTFILES.in'' \<mapsto> [''template.pot\<newline>''])\<rparr>) = Inr st'
          \<and> ExecuteProcess [''xgettext'', ''--files-from=/repo/po/POTFILES.in'', ''-o'',
                 ''/repo/po/tmpk3x9q''] \<notin> set (events st'))
   \<and> (\<exists>st'. post_update (example_xgettext\<lparr>changed_files := [''template.pot'']\<rparr>)
               (tree_with_manifest\<lparr>files := (files tree_with_manifest)
                   (''/repo/po/POTFILES.in'' \<mapsto> [''template.pot\<newline>''])\<rparr>) = Inr st'
          \<and> ExecuteProcess [''xgettext'', ''--files-from=/repo/po/POTFILES.in'', ''-o'',
                 ''/repo/po/tmpk3x9q''] \<in> set (events st'))"
proof -
  let ?quiet = "example_msgmerge\<lparr>previous_head := Some ''4f2a91c'',
                  changed_files := [''readme.md''], component_new_base := ''template.pot''\<rparr>"
  let ?touched = "example_msgmerge\<lparr>previous_head := Some ''4f2a91c'',
                  changed_files := [''template.pot''], component_new_base := ''template.pot''\<rparr>"
  let ?tree = "tree_with_manifest\<lparr>files := (files tree_with_manifest)
                   (''/repo/po/POTFILES.in'' \<mapsto> [''template.pot\<newline>''])\<rparr>"
  let ?xquiet = "example_xgettext\<lparr>changed_files := [''readme.md'']\<rparr>"
  let ?xtouched = "example_xgettext\<lparr>changed_files := [''template.pot'']\<rparr>"
  let ?cmd = "[''xgettext'', ''--files-from=/repo/po/POTFILES.in'', ''-o'', ''/repo/po/tmpk3x9q'']"
  have gates: "xgettext_skips example_component [''template.pot'']
     \<and> \<not> xgettext_skips (example_component\<lparr>changed_files := [''template.pot'']\<rparr>) [''template.pot'']
     \<and> msgmerge_skips example_component
     \<and> \<not> msgmerge_skips (example_component\<lparr>changed_files := [''template.pot'']\<rparr>)
     \<and> \<not> msgmerge_skips (example_component\<lparr>alert_exists := True\<rparr>)
     \<and> \<not> xgettext_skips (example_component\<lparr>previous_head := None\<rparr>) [''template.pot'']"
    using C8_change_gate [of example_component "[''template.pot'']"]
      C8_change_gate [of "example_component\<lparr>changed_files := [''template.pot'']\<rparr>" "[''template.pot'']"]
      C8_change_gate [of "example_component\<lparr>alert_exists := True\<rparr>" "[''template.pot'']"]
      C8_change_gate [of "example_component\<lparr>previous_head := None\<rparr>" "[''template.pot'']"]
    by (simp add: example_component_def)
  have tpl: "new_base_filename e = Some ''/repo/po/app.pot'' \<and> ''/repo/po/app.pot'' \<noteq> []
      \<and> path_exists tree_with_translations ''/repo/po/app.pot''
      \<and> (\<forall>t \<in> set (translation_set e). \<not> skipped_translation tree_with_translations t
            \<longrightarrow> \<not> merge_raises_other e ''/repo/po/app.pot'' t)"
    if "e = ?quiet \<or> e = ?touched" for e
    using that
    by (auto simp: example_msgmerge_def tree_with_translations_def path_exists_def
        merge_raises_other_def)
  have attempted: "map (\<lambda>t. the (get_filename t))
         (filter (\<lambda>t. \<not> skipped_translation tree_with_translations t) (translation_set ?touched))
       = [''/repo/po/cs.po'', ''/repo/po/de.po'', ''/repo/po/fr.po'']"
    by (simp add: example_msgmerge_def tree_with_translations_def skipped_translation_def
        path_exists_def)
  have none: "merges_attempted tree_with_translations = []"
    by (simp add: merges_attempted_def tree_with_translations_def)
  have mq: "msgmerge_skips ?quiet" and mt: "\<not> msgmerge_skips ?touched"
    by (simp_all add: msgmerge_skips_def example_msgmerge_def)
  note open_m = C8_change_gate [THEN conjunct2, THEN conjunct2, THEN conjunct2, THEN conjunct2,
      THEN conjunct2, THEN conjunct1, rule_format]
  from open_m [where menv = ?quiet and st = tree_with_translations, OF tpl] mq none
  have m1: "\<exists>st'. update_translations ?quiet tree_with_translations = Inr st'
          \<and> merges_attempted st' = []"
    by simp
  from open_m [where menv = ?touched and st = tree_with_translations, OF tpl] mt none attempted
  have m2: "\<exists>st'. update_translations ?touched tree_with_translations = Inr st'
          \<and> merges_attempted st' = [''/repo/po/cs.po'', ''/repo/po/de.po'', ''/repo/po/fr.po'']"
    by simp
  have man: "get_files_from e = Some ''/repo/po/POTFILES.in'' \<and> ''/repo/po/POTFILES.in'' \<noteq> []
      \<and> files ?tree ''/repo/po/POTFILES.in'' = Some [''template.pot\<newline>'']
      \<and> (\<forall>p \<in> set (repo_files_of e [''template.pot\<newline>'']). resolve_symlinks e p = None)
      \<and> ExecuteProcess (xgettext_cmd e) \<notin> set (events ?tree)"
    and deps: "repo_files_of e [''template.pot\<newline>''] = [''template.pot'']"
    and cmd: "xgettext_cmd e = ?cmd"
    if "e = ?xquiet \<or> e = ?xtouched" for e
    using that
    by (auto simp: example_xgettext_def tree_with_manifest_def path_eval)
  have xq: "xgettext_skips ?xquiet [''template.pot'']"
    and xt: "\<not> xgettext_skips ?xtouched [''template.pot'']"
    by (simp_all add: xgettext_skips_def example_xgettext_def)
  note open_x = C8_change_gate [THEN conjunct2, THEN conjunct2, THEN conjunct2, THEN conjunct2,
      THEN conjunct2, THEN conjunct2, THEN conjunct2, rule_format]
  from open_x [where xenv = ?xquiet and st = ?tree, OF man] xq
  have x1: "\<exists>st'. post_update ?xquiet ?tree = Inr st' \<and> ExecuteProcess ?cmd \<notin> set (events st')"
    unfolding deps [of ?xquiet, simplified] cmd [of ?xquiet, simplified] by simp
  from open_x [where xenv = ?xtouched and st = ?tree, OF man] xt
  have x2: "\<exists>st'. post_update ?xtouched ?tree = Inr st' \<and> ExecuteProcess ?cmd \<in> set (events st')"
    unfolding deps [of ?xtouched, simplified] cmd [of ?xtouched, simplified] by simp
  from gates m1 m2 x1 x2 show ?thesis by blast
qed

text \<open>
  C9: in a run of \<open>update_translations\<close> that passes the gate and finds the template, and
  in which no merge raises anything but an \<open>UpdateError\<close>: the run returns normally; a
  merge is attempted for every translation that the \<open>continue\<close> does not skip, in order,
  whatever happened to the ones before it; the alerts recorded are one for each attempted
  merge that failed, in order, and none else; and the run ends by triggering the alerts.
\<close>

theorem C9_failure_isolation:
  assumes "\<not> msgmerge_skips env"
    and "new_base_filename env = Some template" and "template \<noteq> []"
    and "path_exists st template"
    and "\<forall>t \<in> set (translation_set env).
           \<not> skipped_translation st t \<longrightarrow> \<not> merge_raises_other env template t"
  shows "\<exists>st'. update_translations env st = Inr st'
           \<and> merges_attempted st' = merges_attempted st
                @ map (\<lambda>t. the (get_filename t))
                    (filter (\<lambda>t. \<not> skipped_translation st t) (translation_set env))
           \<and> alerts st' = alerts st
                @ List.map_filter (merge_alert env template)
                    (filter (\<lambda>t. \<not> skipped_translation st t) (translation_set env))
           \<and> last (events st') = TriggerAlerts (alerts st')"
proof -
  from update_translations_loop_result [OF assms(5)] obtain st1 where
    "update_translations_loop env template (translation_set env) st = Inr st1"
    "merges_attempted st1 = merges_attempted st
                @ map (\<lambda>t. the (get_filename t))
                    (filter (\<lambda>t. \<not> skipped_translation st t) (translation_set env))"
    "alerts st1 = alerts st
                @ List.map_filter (merge_alert env template)
                    (filter (\<lambda>t. \<not> skipped_translation st t) (translation_set env))"
    by blast
  with assms(1-4) show ?thesis
    by (simp add: update_translations_def merges_attempted_def map_filter_append map_filter_simps)
qed

theorem C9_failure_isolation_witness:
  "\<exists>st'. update_translations example_msgmerge tree_with_translations = Inr st'
      \<and> merges_attempted st' = [''/repo/po/cs.po'', ''/repo/po/de.po'', ''/repo/po/fr.po'']
      \<and> alerts st' = [\<lparr>alert_addon = ''weblate.gettext.msgmerge'', alert_command = ''msgmerge'',
                        alert_output = Some ''de.po:7: parse error'', alert_error = ''Error 1''\<rparr>]"
proof -
  have gate: "\<not> msgmerge_skips example_msgmerge"
    by (simp add: msgmerge_skips_def example_msgmerge_def)
  have tpl: "new_base_filename example_msgmerge = Some ''/repo/po/app.pot''"
    "''/repo/po/app.pot'' \<noteq> []" "path_exists tree_with_translations ''/repo/po/app.pot''"
    by (simp_all add: example_msgmerge_def tree_with_translations_def path_exists_def)
  have errs: "\<forall>t \<in> set (translation_set example_msgmerge).
      \<not> skipped_translation tree_with_translations t
      \<longrightarrow> \<not> merge_raises_other example_msgmerge ''/repo/po/app.pot'' t"
    by (simp add: example_msgmerge_def merge_raises_other_def)
  from C9_failure_isolation [OF gate tpl errs] obtain st' where
    run: "update_translations example_msgmerge tree_with_translations = Inr st'"
    and merges: "merges_attempted st' = merges_attempted tree_with_translations
                @ map (\<lambda>t. the (get_filename t))
                    (filter (\<lambda>t. \<not> skipped_translation tree_with_translations t)
                       (translation_set example_msgmerge))"
    and recorded: "alerts st' = alerts tree_with_translations
                @ List.map_filter (merge_alert example_msgmerge ''/repo/po/app.pot'')
                    (filter (\<lambda>t. \<not> skipped_translation tree_with_translations t)
                       (translation_set example_msgmerge))"
    by blast
  from merges have "merges_attempted st'
      = [''/repo/po/cs.po'', ''/repo/po/de.po'', ''/repo/po/fr.po'']"
    by (simp add: example_msgmerge_def tree_with_translations_def merges_attempted_def
        skipped_translation_def path_exists_def)
  moreover from recorded have "alerts st'
      = [\<lparr>alert_addon = ''weblate.gettext.msgmerge'', alert_command = ''msgmerge'',
          alert_output = Some ''de.po:7: parse error'', alert_error = ''Error 1''\<rparr>]"
    by (simp add: example_msgmerge_def tree_with_translations_def
        skipped_translation_def path_exists_def merge_alert_def msgmerge_name_def)
  ultimately show ?thesis using run by blast
qed

text \<open>
  C10: for every component and every configuration, \<open>get_xgettext_args\<close> of the customize
  add-on returns what its \<open>get_msgmerge_args\<close> returns: \<open>["--no-wrap"]\<close> when the configured
  width (77 when not configured) differs from 77, the empty list otherwise; and when the
  configured width cannot be converted to an integer, both raise the same exception.
\<close>

theorem C10_customize_args:
  "customize_get_xgettext_args py_int config component
     = customize_get_msgmerge_args py_int config component
   \<and> (config ''width'' = None \<longrightarrow>
        customize_get_msgmerge_args py_int config component = Inr [])
   \<and> (\<forall>v width. config ''width'' = Some v \<and> py_int v = Inr width \<longrightarrow>
        customize_get_msgmerge_args py_int config component
          = Inr (if width \<noteq> 77 then [''--no-wrap''] else []))
   \<and> (\<forall>v ex. config ''width'' = Some v \<and> py_int v = Inl ex \<longrightarrow>
        customize_get_msgmerge_args py_int config component = Inl ex)"
  by (auto simp: customize_get_xgettext_args_def customize_get_msgmerge_args_def)

theorem C10_customize_args_witness:
  "customize_get_xgettext_args (\<lambda>v::int. Inr v) [''width'' \<mapsto> -1] () = Inr [''--no-wrap'']
   \<and> customize_get_xgettext_args (\<lambda>v::int. Inr v) [''width'' \<mapsto> 77] () = Inr []
   \<and> customize_get_msgmerge_args (\<lambda>v::int. Inr v) Map.empty () = Inr []
   \<and> customize_get_xgettext_args (\<lambda>v::int. Inl (ValueError ''invalid literal'')) [''width'' \<mapsto> 0] ()
       = Inl (ValueError ''invalid literal'')"
  using C10_customize_args [of "\<lambda>v::int. Inr v" "[''width'' \<mapsto> -1]" "()"]
    C10_customize_args [of "\<lambda>v::int. Inr v" "[''width'' \<mapsto> 77]" "()"]
    C10_customize_args [of "\<lambda>v::int. Inr v" "Map.empty" "()"]
    C10_customize_args [of "\<lambda>v::int. Inl (ValueError ''invalid literal'')" "[''width'' \<mapsto> 0]" "()"]
  by simp

end
